theory Spec2Isabelle
  imports Main "HOL-Library.Multiset"
begin

section \<open>blender\_dependency\_check.py: the data\<close>

text \<open>
  The script walks the directory \<^verbatim>\<open>./../\<close>, keeps the files whose lowered name ends with
  \<^verbatim>\<open>.blend\<close>, and for each of them reads its size, opens it in the host (Blender's
  \<^verbatim>\<open>bpy\<close>) and records the file paths of its linked libraries. Afterwards it prints the
  two result dictionaries.

  What the script reads from its surroundings is the \<open>disk\<close>: the directory tree that
  \<^verbatim>\<open>os.walk\<close> sees, the answer of \<^verbatim>\<open>os.path.getsize\<close> for a path, and the document
  that the host finds in the file at a path. What it changes is the rest of the \<open>world\<close>:
  the host's active document, standard output and its own two dictionaries.
\<close>

datatype error = OSError | RuntimeError | OverflowError

text \<open>
  The tree on disk. \<open>File\<close> is an entry that is not a directory (\<^verbatim>\<open>os.walk\<close> puts it in
  \<^verbatim>\<open>files\<close>); the other three are directories with what they hold, and go to
  \<^verbatim>\<open>dirs\<close>. \<open>Dir\<close> is a directory that \<^verbatim>\<open>os.scandir\<close> lists. \<open>Unreadable\<close> is a
  directory whose \<^verbatim>\<open>scandir\<close> raises \<^verbatim>\<open>OSError\<close>: the script passes no
  \<^verbatim>\<open>onerror\<close> to \<^verbatim>\<open>os.walk\<close>, which then ignores the error and yields nothing for the
  directory. \<open>Dir_link\<close> is a symbolic link to a directory: the walk lists it when it is
  the top, and does not go into it below the top (\<^verbatim>\<open>followlinks\<close> is left
  \<^verbatim>\<open>False\<close>).
\<close>

datatype node =
  File string
| Dir string "node list"
| Unreadable string "node list"
| Dir_link string "node list"

record library =
  filepath :: string

record document =
  libraries :: "library list"

record disk =
  tree :: node
  st_size :: "string \<Rightarrow> error + nat"
  blend_data :: "string \<Rightarrow> error + document"

text \<open>
  The calls that the host receives, in the order of their arrival. \<open>Save_as_mainfile\<close> is
  the operation of the line that the source has only as a comment
  (\<^verbatim>\<open># bpy.ops.wm.save_as_mainfile(filepath=blend_file, compress=True)\<close>).
\<close>

datatype call = Open_mainfile string | Data_libraries | Save_as_mainfile string

type_synonym 'v dict = "(string \<times> 'v) list"

record world =
  disk :: disk
  bpy_data :: document
  host_calls :: "call list"
  stdout :: "string list"
  results_libs :: "string list dict"
  results_size :: "nat dict"

section \<open>Strings and paths\<close>

text \<open>
  \<^verbatim>\<open>str.lower\<close>, on names given as bytes: the ASCII capitals become small letters and
  every other byte stays. The suffix test reads the last six characters only, and no
  character outside ASCII lowers to one of \<^verbatim>\<open>.blend\<close>, so the test is the one of Python.
\<close>

definition lower_char :: "char \<Rightarrow> char" where
  "lower_char c =
     (case map_of (zip ''ABCDEFGHIJKLMNOPQRSTUVWXYZ'' ''abcdefghijklmnopqrstuvwxyz'') c of
        None \<Rightarrow> c
      | Some l \<Rightarrow> l)"

definition lower :: "string \<Rightarrow> string" where
  "lower s = map lower_char s"

definition endswith :: "string \<Rightarrow> string \<Rightarrow> bool" where
  "endswith s suf = (length suf \<le> length s \<and> drop (length s - length suf) s = suf)"

text \<open>\<^verbatim>\<open>os.path.join\<close> of two components, as \<^verbatim>\<open>posixpath\<close> has it.\<close>

definition os_path_join :: "string \<Rightarrow> string \<Rightarrow> string" where
  "os_path_join a b =
     (if b \<noteq> [] \<and> hd b = CHR ''/'' then b
      else if a = [] \<or> last a = CHR ''/'' then a @ b
      else a @ ''/'' @ b)"

section \<open>Dictionaries\<close>

text \<open>
  A Python \<^verbatim>\<open>dict\<close> keeps its keys in insertion order; assigning to a key that is
  present replaces the value where it stands.
\<close>

fun dict_set :: "'v dict \<Rightarrow> string \<Rightarrow> 'v \<Rightarrow> 'v dict" where
  "dict_set [] k v = [(k, v)]"
| "dict_set ((k', v') # d) k v =
     (if k' = k then (k', v) # d else (k', v') # dict_set d k v)"

definition keys :: "'v dict \<Rightarrow> string list" where
  "keys d = map fst d"

definition dict_get :: "'v dict \<Rightarrow> string \<Rightarrow> 'v option" where
  "dict_get d k = map_of d k"

section \<open>File discovery\<close>

fun dirnames :: "node list \<Rightarrow> string list" where
  "dirnames [] = []"
| "dirnames (File f # es) = dirnames es"
| "dirnames (Dir d sub # es) = d # dirnames es"
| "dirnames (Unreadable d sub # es) = d # dirnames es"
| "dirnames (Dir_link d sub # es) = d # dirnames es"

fun filenames :: "node list \<Rightarrow> string list" where
  "filenames [] = []"
| "filenames (File f # es) = f # filenames es"
| "filenames (Dir d sub # es) = filenames es"
| "filenames (Unreadable d sub # es) = filenames es"
| "filenames (Dir_link d sub # es) = filenames es"

text \<open>
  \<^verbatim>\<open>os.walk(top)\<close>, top-down: the triple of a directory, then the walks of its
  subdirectories in the order of \<^verbatim>\<open>dirs\<close>, leaving out the symbolic links and the
  directories that cannot be listed. The top itself is listed through a symbolic link; a
  top that cannot be listed, or is no directory, yields nothing.
\<close>

fun walk_subdirs :: "string \<Rightarrow> node list \<Rightarrow> (string \<times> string list \<times> string list) list" where
  "walk_subdirs root [] = []"
| "walk_subdirs root (File f # es) = walk_subdirs root es"
| "walk_subdirs root (Dir d sub # es) =
     (os_path_join root d, dirnames sub, filenames sub)
       # walk_subdirs (os_path_join root d) sub @ walk_subdirs root es"
| "walk_subdirs root (Unreadable d sub # es) = walk_subdirs root es"
| "walk_subdirs root (Dir_link d sub # es) = walk_subdirs root es"

definition os_walk :: "node \<Rightarrow> string \<Rightarrow> (string \<times> string list \<times> string list) list" where
  "os_walk n root =
     (case n of
        Dir d entries \<Rightarrow> (root, dirnames entries, filenames entries) # walk_subdirs root entries
      | Dir_link d entries \<Rightarrow>
          (root, dirnames entries, filenames entries) # walk_subdirs root entries
      | File f \<Rightarrow> []
      | Unreadable d entries \<Rightarrow> [])"

definition is_blend :: "string \<Rightarrow> bool" where
  "is_blend f = endswith (lower f) ''.blend''"

definition blend_files_in :: "string \<times> string list \<times> string list \<Rightarrow> string list" where
  "blend_files_in t = (case t of (root, dirs, files) \<Rightarrow>
     map (os_path_join root) (filter is_blend files))"

definition find_blend_files :: "world \<Rightarrow> string \<Rightarrow> string list" where
  "find_blend_files w directory =
     concat (map blend_files_in (os_walk (tree (disk w)) directory))"

definition directory :: string where
  "directory = ''./../''"

section \<open>The host and the operating system\<close>

definition os_path_getsize :: "world \<Rightarrow> string \<Rightarrow> error + nat" where
  "os_path_getsize w path = st_size (disk w) path"

text \<open>
  \<^verbatim>\<open>bpy.ops.wm.open_mainfile\<close>: the document of the file becomes the host's only
  document; a file that cannot be read raises and leaves the document as it was.
\<close>

definition open_mainfile :: "string \<Rightarrow> world \<Rightarrow> error option \<times> world" where
  "open_mainfile path w =
     (let w' = w\<lparr>host_calls := host_calls w @ [Open_mainfile path]\<rparr>
      in case blend_data (disk w) path of
           Inl e \<Rightarrow> (Some e, w')
         | Inr doc \<Rightarrow> (None, w'\<lparr>bpy_data := doc\<rparr>))"

definition data_libraries :: "world \<Rightarrow> library list \<times> world" where
  "data_libraries w =
     (libraries (bpy_data w), w\<lparr>host_calls := host_calls w @ [Data_libraries]\<rparr>)"

definition print :: "string \<Rightarrow> world \<Rightarrow> world" where
  "print line w = w\<lparr>stdout := stdout w @ [line]\<rparr>"

section \<open>The inspection loop\<close>

definition size_limit :: nat where
  "size_limit = 50 * 1024 * 1024"

text \<open>The body of the loop, for one file.\<close>

definition inspect :: "string \<Rightarrow> world \<Rightarrow> error option \<times> world" where
  "inspect blend_file w =
     (case os_path_getsize w blend_file of
        Inl e \<Rightarrow> (Some e, w)
      | Inr file_size \<Rightarrow>
          (let w1 = (if file_size > size_limit
                     then w\<lparr>results_size := dict_set (results_size w) blend_file file_size\<rparr>
                     else w)
           in case open_mainfile blend_file w1 of
                (Some e, w2) \<Rightarrow> (Some e, w2)
              | (None, w2) \<Rightarrow>
                  (case data_libraries w2 of (libs, w3) \<Rightarrow>
                     (None,
                      if length libs = 0
                      then w3\<lparr>results_libs := dict_set (results_libs w3) blend_file []\<rparr>
                      else w3\<lparr>results_libs :=
                                dict_set (results_libs w3) blend_file (map filepath libs)\<rparr>))))"

fun inspect_loop :: "string list \<Rightarrow> world \<Rightarrow> error option \<times> world" where
  "inspect_loop [] w = (None, w)"
| "inspect_loop (blend_file # rest) w =
     (case inspect blend_file w of
        (Some e, w') \<Rightarrow> (Some e, w')
      | (None, w') \<Rightarrow> inspect_loop rest w')"

section \<open>The report\<close>

fun print_all :: "string list \<Rightarrow> world \<Rightarrow> world" where
  "print_all [] w = w"
| "print_all (l # ls) w = print_all ls (print l w)"

fun report_libs :: "string list dict \<Rightarrow> world \<Rightarrow> world" where
  "report_libs [] w = w"
| "report_libs ((blend_file, libs) # rest) w =
     report_libs rest
       (if libs \<noteq> []
        then print_all (map (\<lambda>lib. ''    - '' @ lib) libs)
               (print (''Blend File: '' @ blend_file) w)
        else w)"

text \<open>
  \<^verbatim>\<open>size / (1024 * 1024)\<close> is the float nearest to the quotient. The divisor is a power
  of two, so the float is \<open>r / 2 ^ 20\<close> for \<open>r\<close> the integer with a 53-bit significand
  nearest to \<open>size\<close> (ties to even); the division raises \<^verbatim>\<open>OverflowError\<close> when that
  is \<open>2 ^ 1024\<close> or more.
\<close>

fun bit_length :: "nat \<Rightarrow> nat" where
  "bit_length n = (if n = 0 then 0 else Suc (bit_length (n div 2)))"

definition round_half_even :: "nat \<Rightarrow> nat \<Rightarrow> nat" where
  "round_half_even a b =
     (let q = a div b; r = a mod b
      in if 2 * r > b \<or> (2 * r = b \<and> odd q) then q + 1 else q)"

definition round53 :: "nat \<Rightarrow> nat" where
  "round53 n =
     (if bit_length n \<le> 53 then n
      else round_half_even n (2 ^ (bit_length n - 53)) * 2 ^ (bit_length n - 53))"

definition truediv_mib :: "nat \<Rightarrow> error + nat" where
  "truediv_mib n = (if round53 n \<ge> 2 ^ 1044 then Inl OverflowError else Inr (round53 n))"

text \<open>
  The format \<^verbatim>\<open>:.2f\<close> prints the float \<open>r / 2 ^ 20\<close> rounded to hundredths, ties to
  even on its exact value: the digits of the whole part, a point and two digits.
  \<open>digit_char\<close> is only asked for a digit below ten.
\<close>

definition digit_char :: "nat \<Rightarrow> char" where
  "digit_char d = ''0123456789'' ! d"

fun str_nat :: "nat \<Rightarrow> string" where
  "str_nat n = (if n < 10 then [digit_char n] else str_nat (n div 10) @ [digit_char (n mod 10)])"

definition hundredths :: "nat \<Rightarrow> nat" where
  "hundredths r = round_half_even (r * 100) (2 ^ 20)"

definition format_2f :: "nat \<Rightarrow> string" where
  "format_2f r =
     (let h = hundredths r
      in str_nat (h div 100) @ ''.'' @ [digit_char (h mod 100 div 10), digit_char (h mod 10)])"

definition warning_line :: "string \<Rightarrow> string \<Rightarrow> string" where
  "warning_line blend_file mb = ''Warning: File '' @ blend_file @ '' is '' @ mb @ ''MB''"

fun report_sizes :: "nat dict \<Rightarrow> world \<Rightarrow> error option \<times> world" where
  "report_sizes [] w = (None, w)"
| "report_sizes ((blend_file, size') # rest) w =
     (case truediv_mib size' of
        Inl e \<Rightarrow> (Some e, w)
      | Inr r \<Rightarrow> report_sizes rest (print (warning_line blend_file (format_2f r)) w))"

section \<open>The script\<close>

text \<open>
  The module body. The two dictionaries start empty; a fault of the inspection loop ends
  the run before anything is printed.
\<close>

definition script :: "world \<Rightarrow> error option \<times> world" where
  "script w0 =
     (let blend_files = find_blend_files w0 directory;
          w = w0\<lparr>results_libs := [], results_size := []\<rparr>
      in case inspect_loop blend_files w of
           (Some e, w1) \<Rightarrow> (Some e, w1)
         | (None, w1) \<Rightarrow>
             (let w2 = print ''Final Results:'' w1;
                  w3 = report_libs (results_libs w2) w2
              in report_sizes (results_size w3) w3))"

declare bit_length.simps [simp del]
declare str_nat.simps [simp del]

section \<open>Notions used to state the properties\<close>

text \<open>
  Every file of the tree below a directory, as the pair of the path of the directory that
  holds it and its name, in the order of the listing: \<open>files_under\<close> looks into every
  directory, \<open>files_walked\<close> only into those that are listed and are no symbolic link.
  \<open>children\<close> is what a node holds, \<open>entries\<close> what the listing of a top gives.
  In a tree that is \<open>fully_listed\<close> every directory is listed and none is a symbolic link.
\<close>

fun files_under :: "string \<Rightarrow> node list \<Rightarrow> (string \<times> string) list" where
  "files_under root [] = []"
| "files_under root (File f # es) = (root, f) # files_under root es"
| "files_under root (Dir d sub # es) = files_under (os_path_join root d) sub @ files_under root es"
| "files_under root (Unreadable d sub # es) =
     files_under (os_path_join root d) sub @ files_under root es"
| "files_under root (Dir_link d sub # es) =
     files_under (os_path_join root d) sub @ files_under root es"

fun files_walked :: "string \<Rightarrow> node list \<Rightarrow> (string \<times> string) list" where
  "files_walked root [] = []"
| "files_walked root (File f # es) = (root, f) # files_walked root es"
| "files_walked root (Dir d sub # es) =
     files_walked (os_path_join root d) sub @ files_walked root es"
| "files_walked root (Unreadable d sub # es) = files_walked root es"
| "files_walked root (Dir_link d sub # es) = files_walked root es"

fun children :: "node \<Rightarrow> node list" where
  "children (Dir d es) = es"
| "children (File f) = []"
| "children (Unreadable d es) = es"
| "children (Dir_link d es) = es"

fun entries :: "node \<Rightarrow> node list" where
  "entries (Dir d es) = es"
| "entries (File f) = []"
| "entries (Unreadable d es) = []"
| "entries (Dir_link d es) = es"

fun fully_listed :: "node list \<Rightarrow> bool" where
  "fully_listed [] = True"
| "fully_listed (File f # es) = fully_listed es"
| "fully_listed (Dir d sub # es) = (fully_listed sub \<and> fully_listed es)"
| "fully_listed (Unreadable d sub # es) = False"
| "fully_listed (Dir_link d sub # es) = False"

definition matching :: "string \<times> string \<Rightarrow> bool" where
  "matching rf = is_blend (snd rf)"

definition path_of :: "string \<times> string \<Rightarrow> string" where
  "path_of rf = os_path_join (fst rf) (snd rf)"

definition is_save :: "call \<Rightarrow> bool" where
  "is_save c = (case c of Save_as_mainfile p \<Rightarrow> True | Open_mainfile p \<Rightarrow> False
                | Data_libraries \<Rightarrow> False)"

text \<open>
  The order of the keys of a dictionary that was empty and then assigned to at the keys
  \<open>ps\<close> in turn: a key keeps the place of its first assignment.
\<close>

definition insert_key :: "string list \<Rightarrow> string \<Rightarrow> string list" where
  "insert_key ks k = (if k \<in> set ks then ks else ks @ [k])"

definition insertion_order :: "string list \<Rightarrow> string list" where
  "insertion_order ps = foldl insert_key [] ps"

definition fault_of :: "disk \<Rightarrow> string \<Rightarrow> error option" where
  "fault_of d p =
     (case st_size d p of
        Inl e \<Rightarrow> Some e
      | Inr n \<Rightarrow> (case blend_data d p of Inl e \<Rightarrow> Some e | Inr doc \<Rightarrow> None))"

fun first_fault :: "disk \<Rightarrow> string list \<Rightarrow> error option" where
  "first_fault d [] = None"
| "first_fault d (p # ps) =
     (case fault_of d p of Some e \<Rightarrow> Some e | None \<Rightarrow> first_fault d ps)"

definition size_of :: "disk \<Rightarrow> string \<Rightarrow> nat" where
  "size_of d p = (case st_size d p of Inl e \<Rightarrow> 0 | Inr n \<Rightarrow> n)"

definition doc_of :: "disk \<Rightarrow> string \<Rightarrow> document" where
  "doc_of d p = (case blend_data d p of Inl e \<Rightarrow> \<lparr>libraries = []\<rparr> | Inr doc \<Rightarrow> doc)"

definition libs_of :: "disk \<Rightarrow> string \<Rightarrow> string list" where
  "libs_of d p = map filepath (libraries (doc_of d p))"

definition oversized :: "disk \<Rightarrow> string \<Rightarrow> bool" where
  "oversized d p = (size_of d p > size_limit)"

definition lib_block :: "string \<times> string list \<Rightarrow> string list" where
  "lib_block e =
     (if snd e = [] then []
      else (''Blend File: '' @ fst e) # map (\<lambda>lib. ''    - '' @ lib) (snd e))"

definition overflows :: "nat \<Rightarrow> bool" where
  "overflows n = (round53 n \<ge> 2 ^ 1044)"

definition size_line :: "string \<times> nat \<Rightarrow> string" where
  "size_line e = warning_line (fst e) (format_2f (round53 (snd e)))"

definition printed :: "world \<Rightarrow> string list" where
  "printed w = drop (length (stdout w)) (stdout (snd (script w)))"

definition demo_tree :: node where
  "demo_tree =
     Dir ''..''
       [File ''scene.blend'', File ''notes.txt'',
        Dir ''props'' [File ''CRATE.BLEND'', File ''crate.png''],
        Dir ''old.blend'' [], Unreadable ''locked'' [File ''secret.blend''],
        Dir_link ''shared'' [File ''linked.blend''],
        File ''ocean.Blend'', File ''reef.blend'']"

definition demo_size :: "string \<Rightarrow> error + nat" where
  "demo_size p =
     (if p = ''./../scene.blend'' then Inr 10485760
      else if p = ''./../ocean.Blend'' then Inr 62914560
      else if p = ''./../reef.blend'' then Inr 52428801
      else if p = ''./../props/CRATE.BLEND'' then Inr 52428800
      else Inl OSError)"

definition demo_data :: "string \<Rightarrow> error + document" where
  "demo_data p =
     (if p = ''./../scene.blend''
      then Inr \<lparr>libraries = [\<lparr>filepath = ''//props/CRATE.BLEND''\<rparr>,
                              \<lparr>filepath = ''//ocean.Blend''\<rparr>]\<rparr>
      else if p = ''./../ocean.Blend'' \<or> p = ''./../reef.blend''
              \<or> p = ''./../props/CRATE.BLEND''
      then Inr \<lparr>libraries = []\<rparr>
      else Inl RuntimeError)"

definition demo_world :: world where
  "demo_world =
     \<lparr>disk = \<lparr>tree = demo_tree, st_size = demo_size, blend_data = demo_data\<rparr>,
      bpy_data = \<lparr>libraries = []\<rparr>, host_calls = [], stdout = [],
      results_libs = [], results_size = []\<rparr>"

definition demo_files :: "string list" where
  "demo_files = [''./../scene.blend'', ''./../ocean.Blend'', ''./../reef.blend'',
                 ''./../props/CRATE.BLEND'']"

fun has_unreadable :: "node list \<Rightarrow> bool" where
  "has_unreadable [] = False"
| "has_unreadable (File f # es) = has_unreadable es"
| "has_unreadable (Dir d sub # es) = (has_unreadable sub \<or> has_unreadable es)"
| "has_unreadable (Unreadable d sub # es) = True"
| "has_unreadable (Dir_link d sub # es) = has_unreadable es"

definition broken_world :: world where
  "broken_world =
     demo_world\<lparr>disk := (disk demo_world)\<lparr>blend_data :=
       (\<lambda>p. if p = ''./../reef.blend'' then Inl RuntimeError else demo_data p)\<rparr>\<rparr>"

definition unopened_world :: world where
  "unopened_world =
     demo_world\<lparr>disk := (disk demo_world)\<lparr>blend_data :=
       (\<lambda>p. if p = ''./../scene.blend'' then Inl RuntimeError else demo_data p)\<rparr>\<rparr>"

definition listed_tree :: node where
  "listed_tree =
     Dir ''..''
       [File ''a.blend'', Dir ''sub'' [File ''B.BLEND'', File ''c.txt''], Dir ''d.blend'' []]"

definition listed_world :: world where
  "listed_world = demo_world\<lparr>disk := (disk demo_world)\<lparr>tree := listed_tree\<rparr>\<rparr>"


text \<open>
  A listing as a file system gives it: every name is not empty and has no separator, and
  no two entries of a directory have the same name, in the directories that the walk
  lists. \<open>rel_paths\<close> are the paths of the files that the walk finds below a directory,
  relative to it.
\<close>

definition plain_name :: "string \<Rightarrow> bool" where
  "plain_name n = (n \<noteq> [] \<and> CHR ''/'' \<notin> set n)"

fun name_of :: "node \<Rightarrow> string" where
  "name_of (File f) = f"
| "name_of (Dir d sub) = d"
| "name_of (Unreadable d sub) = d"
| "name_of (Dir_link d sub) = d"

fun well_named :: "node list \<Rightarrow> bool" where
  "well_named [] = True"
| "well_named (File f # es) =
     (plain_name f \<and> f \<notin> set (map name_of es) \<and> well_named es)"
| "well_named (Dir d sub # es) =
     (plain_name d \<and> d \<notin> set (map name_of es) \<and> well_named sub \<and> well_named es)"
| "well_named (Unreadable d sub # es) =
     (plain_name d \<and> d \<notin> set (map name_of es) \<and> well_named es)"
| "well_named (Dir_link d sub # es) =
     (plain_name d \<and> d \<notin> set (map name_of es) \<and> well_named es)"

fun rel_paths :: "node list \<Rightarrow> string list" where
  "rel_paths [] = []"
| "rel_paths (File f # es) = f # rel_paths es"
| "rel_paths (Dir d sub # es) = map (\<lambda>r. d @ ''/'' @ r) (rel_paths sub) @ rel_paths es"
| "rel_paths (Unreadable d sub # es) = rel_paths es"
| "rel_paths (Dir_link d sub # es) = rel_paths es"

definition with_sep :: "string \<Rightarrow> string" where
  "with_sep root = (if root = [] \<or> last root = CHR ''/'' then root else root @ ''/'')"

definition first_part :: "string \<Rightarrow> string" where
  "first_part r = takeWhile (\<lambda>c. c \<noteq> CHR ''/'') r"

section \<open>Discovery\<close>

lemma filenames_files_walked:
  "mset (concat (map blend_files_in (walk_subdirs root es)))
     + mset (map (os_path_join root) (filter is_blend (filenames es)))
   = mset (map path_of (filter matching (files_walked root es)))"
proof (induction root es rule: walk_subdirs.induct)
  case (3 root d sub es)
  let ?r = "os_path_join root d"
  have "mset (concat (map blend_files_in (walk_subdirs root (Dir d sub # es))))
          + mset (map (os_path_join root) (filter is_blend (filenames (Dir d sub # es))))
        = (mset (concat (map blend_files_in (walk_subdirs ?r sub)))
             + mset (map (os_path_join ?r) (filter is_blend (filenames sub))))
          + (mset (concat (map blend_files_in (walk_subdirs root es)))
             + mset (map (os_path_join root) (filter is_blend (filenames es))))"
    by (simp add: blend_files_in_def)
  also have "\<dots> = mset (map path_of (filter matching (files_walked ?r sub)))
                  + mset (map path_of (filter matching (files_walked root es)))"
    by (simp only: "3.IH")
  finally show ?case by simp
qed (simp_all add: matching_def path_of_def)

lemma mset_find_blend_files:
  "mset (find_blend_files w dir)
   = mset (map path_of (filter matching (files_walked dir (entries (tree (disk w))))))"
proof (cases "tree (disk w)")
  case (Dir d es)
  then show ?thesis
    using filenames_files_walked [of dir es]
    by (simp add: find_blend_files_def os_walk_def blend_files_in_def ac_simps)
next
  case (Dir_link d es)
  then show ?thesis
    using filenames_files_walked [of dir es]
    by (simp add: find_blend_files_def os_walk_def blend_files_in_def ac_simps)
qed (simp_all add: find_blend_files_def os_walk_def)

section \<open>Dictionaries in insertion order\<close>

lemma dict_set_map:
  "dict_set (map (\<lambda>k. (k, g k)) ks) p (g p) = map (\<lambda>k. (k, g k)) (insert_key ks p)"
  by (induction ks) (auto simp: insert_key_def)

lemma foldl_dict_set:
  "foldl (\<lambda>d p. dict_set d p (g p)) (map (\<lambda>k. (k, g k)) ks) ps
   = map (\<lambda>k. (k, g k)) (foldl insert_key ks ps)"
  by (induction ps arbitrary: ks) (simp_all add: dict_set_map)

lemma insert_key_filter:
  "P p \<Longrightarrow> insert_key (filter P ks) p = filter P (insert_key ks p)"
  "\<not> P p \<Longrightarrow> filter P (insert_key ks p) = filter P ks"
  by (auto simp: insert_key_def)

lemma foldl_dict_set_if:
  "foldl (\<lambda>d p. if P p then dict_set d p (g p) else d) (map (\<lambda>k. (k, g k)) (filter P ks)) ps
   = map (\<lambda>k. (k, g k)) (filter P (foldl insert_key ks ps))"
proof (induction ps arbitrary: ks)
  case Nil
  show ?case by simp
next
  case (Cons p ps)
  show ?case
  proof (cases "P p")
    case True
    then show ?thesis
      using Cons.IH [of "insert_key ks p"]
      by (simp add: dict_set_map insert_key_filter(1))
  next
    case False
    then show ?thesis
      using Cons.IH [of "insert_key ks p"]
      by (simp add: insert_key_filter(2))
  qed
qed

lemma set_foldl_insert_key: "set (foldl insert_key ks ps) = set ks \<union> set ps"
  by (induction ps arbitrary: ks) (auto simp: insert_key_def)

lemma distinct_foldl_insert_key: "distinct ks \<Longrightarrow> distinct (foldl insert_key ks ps)"
  by (induction ps arbitrary: ks) (auto simp: insert_key_def)

lemma foldl_insert_key_distinct:
  "distinct (ks @ ps) \<Longrightarrow> foldl insert_key ks ps = ks @ ps"
  by (induction ps arbitrary: ks) (auto simp: insert_key_def)

lemma insertion_order_distinct: "distinct ps \<Longrightarrow> insertion_order ps = ps"
  using foldl_insert_key_distinct [of "[]" ps] by (simp add: insertion_order_def)

section \<open>The inspection loop, step by step\<close>

lemma inspect_fst: "fst (inspect p w) = fault_of (disk w) p"
  by (simp add: inspect_def fault_of_def os_path_getsize_def open_mainfile_def
        data_libraries_def Let_def split: sum.splits)

lemma inspect_disk: "disk (snd (inspect p w)) = disk w"
  by (simp add: inspect_def os_path_getsize_def open_mainfile_def
        data_libraries_def Let_def split: sum.splits)

lemma inspect_stdout: "stdout (snd (inspect p w)) = stdout w"
  by (simp add: inspect_def os_path_getsize_def open_mainfile_def
        data_libraries_def Let_def split: sum.splits)

lemma inspect_ok:
  assumes "disk w = d" and "fault_of d p = None"
  shows "inspect p w =
    (None, w\<lparr>bpy_data := doc_of d p,
             host_calls := host_calls w @ [Open_mainfile p, Data_libraries],
             results_libs := dict_set (results_libs w) p (libs_of d p),
             results_size := (if oversized d p
                              then dict_set (results_size w) p (size_of d p)
                              else results_size w)\<rparr>)"
  using assms
  by (auto simp: inspect_def fault_of_def os_path_getsize_def open_mainfile_def
        data_libraries_def Let_def size_of_def doc_of_def libs_of_def oversized_def
        split: sum.splits)

lemma inspect_loop_fst: "fst (inspect_loop ps w) = first_fault (disk w) ps"
proof (induction ps arbitrary: w)
  case Nil
  show ?case by simp
next
  case (Cons p ps)
  obtain r w' where r: "inspect p w = (r, w')" by (cases "inspect p w")
  have f: "r = fault_of (disk w) p" and d: "disk w' = disk w"
    using inspect_fst [of p w] inspect_disk [of p w] by (simp_all add: r)
  show ?case
    by (cases r) (simp_all add: r f [symmetric] d Cons.IH)
qed

lemma inspect_loop_disk: "disk (snd (inspect_loop ps w)) = disk w"
proof (induction ps arbitrary: w)
  case Nil
  show ?case by simp
next
  case (Cons p ps)
  obtain r w' where r: "inspect p w = (r, w')" by (cases "inspect p w")
  have d: "disk w' = disk w"
    using inspect_disk [of p w] by (simp add: r)
  show ?case
    by (cases r) (simp_all add: r d Cons.IH)
qed

lemma inspect_loop_stdout: "stdout (snd (inspect_loop ps w)) = stdout w"
proof (induction ps arbitrary: w)
  case Nil
  show ?case by simp
next
  case (Cons p ps)
  obtain r w' where r: "inspect p w = (r, w')" by (cases "inspect p w")
  have d: "stdout w' = stdout w"
    using inspect_stdout [of p w] by (simp add: r)
  show ?case
    by (cases r) (simp_all add: r d Cons.IH)
qed

lemma first_fault_None: "first_fault d ps = None \<longleftrightarrow> (\<forall>p \<in> set ps. fault_of d p = None)"
  by (induction ps) (auto split: option.splits)

lemma inspect_loop_ok:
  assumes "disk w = d" and "first_fault d ps = None"
  shows "inspect_loop ps w =
    (None, w\<lparr>bpy_data := (if ps = [] then bpy_data w else doc_of d (last ps)),
             host_calls := host_calls w @ concat (map (\<lambda>p. [Open_mainfile p, Data_libraries]) ps),
             results_libs := foldl (\<lambda>r p. dict_set r p (libs_of d p)) (results_libs w) ps,
             results_size := foldl (\<lambda>r p. if oversized d p then dict_set r p (size_of d p) else r)
                               (results_size w) ps\<rparr>)"
  using assms
proof (induction ps arbitrary: w)
  case Nil
  show ?case by simp
next
  case (Cons p ps)
  from Cons.prems have p: "fault_of d p = None" and ps: "first_fault d ps = None"
    by (simp_all split: option.splits)
  let ?w' = "w\<lparr>bpy_data := doc_of d p,
             host_calls := host_calls w @ [Open_mainfile p, Data_libraries],
             results_libs := dict_set (results_libs w) p (libs_of d p),
             results_size := (if oversized d p
                              then dict_set (results_size w) p (size_of d p)
                              else results_size w)\<rparr>"
  have step: "inspect p w = (None, ?w')"
    using Cons.prems(1) p by (rule inspect_ok)
  have "disk ?w' = d" using Cons.prems(1) by simp
  then have ih: "inspect_loop ps ?w' =
    (None, ?w'\<lparr>bpy_data := (if ps = [] then bpy_data ?w' else doc_of d (last ps)),
             host_calls := host_calls ?w' @ concat (map (\<lambda>p. [Open_mainfile p, Data_libraries]) ps),
             results_libs := foldl (\<lambda>r p. dict_set r p (libs_of d p)) (results_libs ?w') ps,
             results_size := foldl (\<lambda>r p. if oversized d p then dict_set r p (size_of d p) else r)
                               (results_size ?w') ps\<rparr>)"
    using ps by (rule Cons.IH)
  show ?case
    by (simp add: step ih)
qed

section \<open>The report and the whole run\<close>

lemma print_all_eq: "print_all ls w = w\<lparr>stdout := stdout w @ ls\<rparr>"
  by (induction ls arbitrary: w) (simp_all add: print_def)

lemma report_libs_eq: "report_libs d w = w\<lparr>stdout := stdout w @ concat (map lib_block d)\<rparr>"
proof (induction d arbitrary: w)
  case Nil
  show ?case by simp
next
  case (Cons e d)
  obtain p libs where e: "e = (p, libs)" by (cases e)
  show ?case
    by (simp add: e Cons.IH print_all_eq print_def lib_block_def)
qed

lemma report_sizes_eq:
  "report_sizes d w =
     (if \<exists>e \<in> set d. overflows (snd e) then Some OverflowError else None,
      w\<lparr>stdout := stdout w @ map size_line (takeWhile (\<lambda>e. \<not> overflows (snd e)) d)\<rparr>)"
proof (induction d arbitrary: w)
  case Nil
  show ?case by simp
next
  case (Cons e d)
  obtain p n where e: "e = (p, n)" by (cases e)
  show ?case
    by (simp add: e Cons.IH print_def overflows_def truediv_mib_def size_line_def)
qed

lemma script_fault:
  assumes "first_fault (disk w) (find_blend_files w directory) = Some e"
  shows "fst (script w) = Some e" and "stdout (snd (script w)) = stdout w"
    and "disk (snd (script w)) = disk w"
proof -
  let ?w = "w\<lparr>results_libs := [], results_size := []\<rparr>"
  let ?fs = "find_blend_files w directory"
  obtain r w1 where r: "inspect_loop ?fs ?w = (r, w1)" by (cases "inspect_loop ?fs ?w")
  have "r = Some e"
    using inspect_loop_fst [of ?fs ?w] assms by (simp add: r)
  moreover have "stdout w1 = stdout w" "disk w1 = disk w"
    using inspect_loop_stdout [of ?fs ?w] inspect_loop_disk [of ?fs ?w] by (simp_all add: r)
  ultimately show "fst (script w) = Some e" and "stdout (snd (script w)) = stdout w"
    and "disk (snd (script w)) = disk w"
    by (simp_all add: script_def r)
qed

lemma script_no_fault:
  assumes "first_fault (disk w) (find_blend_files w directory) = None"
  defines "order \<equiv> insertion_order (find_blend_files w directory)"
  defines "rl \<equiv> map (\<lambda>p. (p, libs_of (disk w) p)) order"
  defines "rs \<equiv> map (\<lambda>p. (p, size_of (disk w) p)) (filter (oversized (disk w)) order)"
  shows "script w =
    (if \<exists>e \<in> set rs. overflows (snd e) then Some OverflowError else None,
     w\<lparr>bpy_data := (if find_blend_files w directory = [] then bpy_data w
                      else doc_of (disk w) (last (find_blend_files w directory))),
       host_calls := host_calls w
          @ concat (map (\<lambda>p. [Open_mainfile p, Data_libraries]) (find_blend_files w directory)),
       stdout := stdout w @ ''Final Results:'' # concat (map lib_block rl)
          @ map size_line (takeWhile (\<lambda>e. \<not> overflows (snd e)) rs),
       results_libs := rl,
       results_size := rs\<rparr>)"
proof -
  let ?w = "w\<lparr>results_libs := [], results_size := []\<rparr>"
  let ?fs = "find_blend_files w directory"
  have d: "disk ?w = disk w" by simp
  have a: "first_fault (disk w) ?fs = None" using assms(1) by simp
  have l: "foldl (\<lambda>r p. dict_set r p (libs_of (disk w) p)) [] ?fs = rl"
    using foldl_dict_set [of "libs_of (disk w)" "[]" ?fs]
    by (simp add: rl_def order_def insertion_order_def)
  have s: "foldl (\<lambda>r p. if oversized (disk w) p then dict_set r p (size_of (disk w) p) else r)
             [] ?fs = rs"
    using foldl_dict_set_if [of "oversized (disk w)" "size_of (disk w)" "[]" ?fs]
    by (simp add: rs_def order_def insertion_order_def)
  show ?thesis
    by (simp add: script_def inspect_loop_ok [OF d a] l s print_def report_libs_eq
          report_sizes_eq Let_def)
qed

section \<open>A worked example\<close>

lemma is_blend_demo:
  "is_blend ''scene.blend''" "\<not> is_blend ''notes.txt''" "is_blend ''CRATE.BLEND''"
  "\<not> is_blend ''crate.png''" "is_blend ''ocean.Blend''" "is_blend ''reef.blend''"
  by (simp_all add: is_blend_def endswith_def lower_def lower_char_def)

lemma demo_find: "find_blend_files demo_world directory = demo_files"
  by (simp add: find_blend_files_def demo_world_def demo_tree_def os_walk_def
        blend_files_in_def is_blend_demo os_path_join_def directory_def demo_files_def)

lemma demo_fault_of:
  "fault_of (disk demo_world) ''./../scene.blend'' = None"
  "fault_of (disk demo_world) ''./../ocean.Blend'' = None"
  "fault_of (disk demo_world) ''./../reef.blend'' = None"
  "fault_of (disk demo_world) ''./../props/CRATE.BLEND'' = None"
  by (simp_all add: fault_of_def demo_world_def demo_size_def demo_data_def)

lemma demo_first_fault: "first_fault (disk demo_world) demo_files = None"
  by (simp add: demo_files_def demo_fault_of)

lemma demo_order: "insertion_order demo_files = demo_files"
  by (rule insertion_order_distinct) (simp add: demo_files_def)

lemma demo_size_of:
  "size_of (disk demo_world) ''./../scene.blend'' = 10485760"
  "size_of (disk demo_world) ''./../ocean.Blend'' = 62914560"
  "size_of (disk demo_world) ''./../reef.blend'' = 52428801"
  "size_of (disk demo_world) ''./../props/CRATE.BLEND'' = 52428800"
  by (simp_all add: size_of_def demo_world_def demo_size_def)

lemma demo_oversized:
  "\<not> oversized (disk demo_world) ''./../scene.blend''"
  "oversized (disk demo_world) ''./../ocean.Blend''"
  "oversized (disk demo_world) ''./../reef.blend''"
  "\<not> oversized (disk demo_world) ''./../props/CRATE.BLEND''"
  by (simp_all add: oversized_def demo_size_of size_limit_def)

lemma demo_libs_of:
  "libs_of (disk demo_world) ''./../scene.blend'' = [''//props/CRATE.BLEND'', ''//ocean.Blend'']"
  "libs_of (disk demo_world) ''./../ocean.Blend'' = []"
  "libs_of (disk demo_world) ''./../reef.blend'' = []"
  "libs_of (disk demo_world) ''./../props/CRATE.BLEND'' = []"
  by (simp_all add: libs_of_def doc_of_def demo_world_def demo_data_def)

lemma bit_length_demo: "bit_length 62914560 = 26" "bit_length 52428801 = 26"
  by (simp_all add: bit_length.simps)

lemma demo_round53: "round53 62914560 = 62914560" "round53 52428801 = 52428801"
  by (simp_all add: round53_def bit_length_demo)

lemma demo_overflows: "\<not> overflows 62914560" "\<not> overflows 52428801"
  by (simp_all add: overflows_def demo_round53)

lemma demo_format: "format_2f 62914560 = ''60.00''" "format_2f 52428801 = ''50.00''"
  by (simp_all add: format_2f_def hundredths_def round_half_even_def Let_def str_nat.simps
        digit_char_def)

lemma demo_doc_of:
  "doc_of (disk demo_world) ''./../props/CRATE.BLEND'' = \<lparr>libraries = []\<rparr>"
  by (simp add: doc_of_def demo_world_def demo_data_def)

lemma demo_initial: "host_calls demo_world = []" "stdout demo_world = []"
  by (simp_all add: demo_world_def)

lemma demo_script:
  "script demo_world =
     (None,
      demo_world\<lparr>bpy_data := \<lparr>libraries = []\<rparr>,
        host_calls := [Open_mainfile ''./../scene.blend'', Data_libraries,
                       Open_mainfile ''./../ocean.Blend'', Data_libraries,
                       Open_mainfile ''./../reef.blend'', Data_libraries,
                       Open_mainfile ''./../props/CRATE.BLEND'', Data_libraries],
        stdout := [''Final Results:'', ''Blend File: ./../scene.blend'',
                   ''    - //props/CRATE.BLEND'', ''    - //ocean.Blend'',
                   ''Warning: File ./../ocean.Blend is 60.00MB'',
                   ''Warning: File ./../reef.blend is 50.00MB''],
        results_libs := [(''./../scene.blend'', [''//props/CRATE.BLEND'', ''//ocean.Blend'']),
                         (''./../ocean.Blend'', []), (''./../reef.blend'', []),
                         (''./../props/CRATE.BLEND'', [])],
        results_size := [(''./../ocean.Blend'', 62914560), (''./../reef.blend'', 52428801)]\<rparr>)"
proof -
  have f: "first_fault (disk demo_world) (find_blend_files demo_world directory) = None"
    by (simp add: demo_find demo_first_fault)
  show ?thesis
    unfolding script_no_fault [OF f] demo_find demo_order
    by (simp add: demo_files_def demo_oversized demo_size_of demo_libs_of demo_overflows
          lib_block_def size_line_def warning_line_def demo_round53 demo_format
          demo_doc_of demo_initial)
qed

section \<open>Facts about every run\<close>

lemma inspect_saves:
  "filter is_save (host_calls (snd (inspect p w))) = filter is_save (host_calls w)"
  by (simp add: inspect_def os_path_getsize_def open_mainfile_def
        data_libraries_def Let_def is_save_def split: sum.splits)

lemma inspect_loop_saves:
  "filter is_save (host_calls (snd (inspect_loop ps w))) = filter is_save (host_calls w)"
proof (induction ps arbitrary: w)
  case Nil
  show ?case by simp
next
  case (Cons p ps)
  obtain r w' where r: "inspect p w = (r, w')" by (cases "inspect p w")
  have d: "filter is_save (host_calls w') = filter is_save (host_calls w)"
    using inspect_saves [of p w] by (simp add: r)
  show ?case
    by (cases r) (simp_all add: r d Cons.IH)
qed

lemma script_after_loop:
  "disk (snd (script w))
     = disk (snd (inspect_loop (find_blend_files w directory)
                    (w\<lparr>results_libs := [], results_size := []\<rparr>)))"
  "host_calls (snd (script w))
     = host_calls (snd (inspect_loop (find_blend_files w directory)
                    (w\<lparr>results_libs := [], results_size := []\<rparr>)))"
  "bpy_data (snd (script w))
     = bpy_data (snd (inspect_loop (find_blend_files w directory)
                    (w\<lparr>results_libs := [], results_size := []\<rparr>)))"
  "results_libs (snd (script w))
     = results_libs (snd (inspect_loop (find_blend_files w directory)
                    (w\<lparr>results_libs := [], results_size := []\<rparr>)))"
  "results_size (snd (script w))
     = results_size (snd (inspect_loop (find_blend_files w directory)
                    (w\<lparr>results_libs := [], results_size := []\<rparr>)))"
  by (simp_all add: script_def Let_def print_def report_libs_eq report_sizes_eq
        split: prod.splits option.splits)

lemma script_disk: "disk (snd (script w)) = disk w"
  by (simp add: script_after_loop(1) inspect_loop_disk)

lemma script_fst_loop:
  "fst (script w) = None \<Longrightarrow> first_fault (disk w) (find_blend_files w directory) = None"
proof (rule ccontr)
  assume a: "fst (script w) = None"
    and "first_fault (disk w) (find_blend_files w directory) \<noteq> None"
  then obtain e where "first_fault (disk w) (find_blend_files w directory) = Some e"
    by blast
  from script_fault(1) [OF this] a show False by simp
qed

lemma script_complete:
  assumes "fst (script w) = None"
  defines "order \<equiv> insertion_order (find_blend_files w directory)"
  defines "rl \<equiv> map (\<lambda>p. (p, libs_of (disk w) p)) order"
  defines "rs \<equiv> map (\<lambda>p. (p, size_of (disk w) p)) (filter (oversized (disk w)) order)"
  shows "results_libs (snd (script w)) = rl"
    and "results_size (snd (script w)) = rs"
    and "printed w = ''Final Results:'' # concat (map lib_block rl) @ map size_line rs"
    and "host_calls (snd (script w)) = host_calls w
          @ concat (map (\<lambda>p. [Open_mainfile p, Data_libraries]) (find_blend_files w directory))"
    and "\<forall>e \<in> set rs. \<not> overflows (snd e)"
proof -
  have f: "first_fault (disk w) (find_blend_files w directory) = None"
    using assms(1) by (rule script_fst_loop)
  note s = script_no_fault [OF f, folded order_def, folded rl_def, folded rs_def]
  show o: "\<forall>e \<in> set rs. \<not> overflows (snd e)"
    using assms(1) unfolding s by (simp split: if_splits)
  then have t: "takeWhile (\<lambda>e. \<not> overflows (snd e)) rs = rs"
    by (simp add: takeWhile_eq_all_conv)
  show "results_libs (snd (script w)) = rl" "results_size (snd (script w)) = rs"
    and "host_calls (snd (script w)) = host_calls w
          @ concat (map (\<lambda>p. [Open_mainfile p, Data_libraries]) (find_blend_files w directory))"
    unfolding s by simp_all
  show "printed w = ''Final Results:'' # concat (map lib_block rl) @ map size_line rs"
    unfolding printed_def s by (simp add: t)
qed

section \<open>Faults and reruns\<close>

lemma inspect_loop_append:
  "inspect_loop (xs @ ys) w =
     (case inspect_loop xs w of
        (Some e, w') \<Rightarrow> (Some e, w')
      | (None, w') \<Rightarrow> inspect_loop ys w')"
  by (induction xs arbitrary: w) (simp_all split: prod.splits option.splits)

lemma inspect_load_fault:
  assumes "disk w = d" and "st_size d p = Inr n" and "blend_data d p = Inl e"
  shows "inspect p w =
    (Some e, w\<lparr>host_calls := host_calls w @ [Open_mainfile p],
               results_size := (if n > size_limit then dict_set (results_size w) p n
                                else results_size w)\<rparr>)"
  using assms
  by (simp add: inspect_def os_path_getsize_def open_mainfile_def Let_def)

lemma dict_get_dict_set: "dict_get (dict_set d p v) p = Some v"
  by (induction d) (auto simp: dict_get_def)

lemma find_blend_files_disk:
  "disk w' = disk w \<Longrightarrow> find_blend_files w' dir = find_blend_files w dir"
  by (simp add: find_blend_files_def)

lemma printed_fault:
  assumes "first_fault (disk w) (find_blend_files w directory) = Some e"
  shows "printed w = []"
  by (simp add: printed_def script_fault(2) [OF assms])

lemma script_depends_on_disk:
  assumes "disk w' = disk w"
  shows "fst (script w') = fst (script w)" and "printed w' = printed w"
proof -
  have fs: "find_blend_files w' directory = find_blend_files w directory"
    using assms by (rule find_blend_files_disk)
  show "fst (script w') = fst (script w)"
  proof (cases "first_fault (disk w) (find_blend_files w directory)")
    case None
    then have n': "first_fault (disk w') (find_blend_files w' directory) = None"
      by (simp add: fs assms)
    show ?thesis
      unfolding script_no_fault [OF None] script_no_fault [OF n']
      by (simp add: fs assms)
  next
    case (Some e)
    then have s': "first_fault (disk w') (find_blend_files w' directory) = Some e"
      by (simp add: fs assms)
    show ?thesis
      by (simp add: script_fault(1) [OF Some] script_fault(1) [OF s'])
  qed
  show "printed w' = printed w"
  proof (cases "first_fault (disk w) (find_blend_files w directory)")
    case None
    then have n': "first_fault (disk w') (find_blend_files w' directory) = None"
      by (simp add: fs assms)
    show ?thesis
      unfolding printed_def script_no_fault [OF None] script_no_fault [OF n']
      by (simp add: fs assms)
  next
    case (Some e)
    then have s': "first_fault (disk w') (find_blend_files w' directory) = Some e"
      by (simp add: fs assms)
    show ?thesis
      by (simp add: printed_fault [OF Some] printed_fault [OF s'])
  qed
qed

lemma broken_find: "find_blend_files broken_world directory = demo_files"
  using find_blend_files_disk [of broken_world demo_world directory]
  by (simp add: find_blend_files_def broken_world_def demo_find [unfolded find_blend_files_def])

lemma broken_disk:
  "st_size (disk broken_world) = demo_size"
  "blend_data (disk broken_world) ''./../scene.blend'' = demo_data ''./../scene.blend''"
  "blend_data (disk broken_world) ''./../ocean.Blend'' = demo_data ''./../ocean.Blend''"
  "blend_data (disk broken_world) ''./../reef.blend'' = Inl RuntimeError"
  by (simp_all add: broken_world_def demo_world_def)

lemma broken_fault_of:
  "fault_of (disk broken_world) ''./../scene.blend'' = None"
  "fault_of (disk broken_world) ''./../ocean.Blend'' = None"
  "fault_of (disk broken_world) ''./../reef.blend'' = Some RuntimeError"
  by (simp_all add: fault_of_def broken_disk demo_size_def demo_data_def)

lemma broken_first_fault:
  "first_fault (disk broken_world) (find_blend_files broken_world directory) = Some RuntimeError"
  by (simp add: broken_find demo_files_def broken_fault_of)

lemma script_load_fault:
  assumes fs: "find_blend_files w directory = xs @ p # ys"
    and xs: "first_fault (disk w) xs = None"
    and n: "st_size (disk w) p = Inr n"
    and e: "blend_data (disk w) p = Inl e"
  shows "fst (script w) = Some e"
    and "stdout (snd (script w)) = stdout w"
    and "results_libs (snd (script w))
           = map (\<lambda>q. (q, libs_of (disk w) q)) (insertion_order xs)"
    and "results_size (snd (script w))
           = (if n > size_limit
              then dict_set (map (\<lambda>q. (q, size_of (disk w) q))
                               (filter (oversized (disk w)) (insertion_order xs))) p n
              else map (\<lambda>q. (q, size_of (disk w) q))
                     (filter (oversized (disk w)) (insertion_order xs)))"
proof -
  let ?w = "w\<lparr>results_libs := [], results_size := []\<rparr>"
  have d: "disk ?w = disk w" by simp
  obtain wx where wx: "inspect_loop xs ?w = (None, wx)"
    and dx: "disk wx = disk w"
    and ox: "stdout wx = stdout w"
    and lx: "results_libs wx = foldl (\<lambda>r q. dict_set r q (libs_of (disk w) q)) [] xs"
    and sx: "results_size wx
               = foldl (\<lambda>r q. if oversized (disk w) q then dict_set r q (size_of (disk w) q)
                               else r) [] xs"
    using inspect_loop_ok [OF d xs] by simp
  let ?wp = "wx\<lparr>host_calls := host_calls wx @ [Open_mainfile p],
               results_size := (if n > size_limit then dict_set (results_size wx) p n
                                else results_size wx)\<rparr>"
  have ip: "inspect p wx = (Some e, ?wp)"
    using dx n e by (rule inspect_load_fault)
  have "inspect_loop (xs @ p # ys) ?w = (Some e, ?wp)"
    by (simp add: inspect_loop_append wx ip)
  then have s: "script w = (Some e, ?wp)"
    by (simp add: script_def fs)
  have l: "results_libs wx = map (\<lambda>q. (q, libs_of (disk w) q)) (insertion_order xs)"
    using foldl_dict_set [of "libs_of (disk w)" "[]" xs]
    by (simp add: lx insertion_order_def)
  have z: "results_size wx
             = map (\<lambda>q. (q, size_of (disk w) q))
                 (filter (oversized (disk w)) (insertion_order xs))"
    using foldl_dict_set_if [of "oversized (disk w)" "size_of (disk w)" "[]" xs]
    by (simp add: sx insertion_order_def)
  show "fst (script w) = Some e" by (simp add: s)
  show "stdout (snd (script w)) = stdout w" by (simp add: s ox)
  show "results_libs (snd (script w))
           = map (\<lambda>q. (q, libs_of (disk w) q)) (insertion_order xs)"
    by (simp add: s l)
  show "results_size (snd (script w))
           = (if n > size_limit
              then dict_set (map (\<lambda>q. (q, size_of (disk w) q))
                               (filter (oversized (disk w)) (insertion_order xs))) p n
              else map (\<lambda>q. (q, size_of (disk w) q))
                     (filter (oversized (disk w)) (insertion_order xs)))"
    by (simp add: s z)
qed

lemma broken_values:
  "size_of (disk broken_world) ''./../scene.blend'' = 10485760"
  "size_of (disk broken_world) ''./../ocean.Blend'' = 62914560"
  "libs_of (disk broken_world) ''./../scene.blend''
     = [''//props/CRATE.BLEND'', ''//ocean.Blend'']"
  "libs_of (disk broken_world) ''./../ocean.Blend'' = []"
  by (simp_all add: size_of_def libs_of_def doc_of_def broken_disk demo_size_def demo_data_def)

lemma broken_script:
  "fst (script broken_world) = Some RuntimeError"
  "printed broken_world = []"
  "results_libs (snd (script broken_world))
     = [(''./../scene.blend'', [''//props/CRATE.BLEND'', ''//ocean.Blend'']),
        (''./../ocean.Blend'', [])]"
  "results_size (snd (script broken_world))
     = [(''./../ocean.Blend'', 62914560), (''./../reef.blend'', 52428801)]"
proof -
  have fs: "find_blend_files broken_world directory
      = [''./../scene.blend'', ''./../ocean.Blend''] @ ''./../reef.blend''
        # [''./../props/CRATE.BLEND'']"
    by (simp add: broken_find demo_files_def)
  have xs: "first_fault (disk broken_world) [''./../scene.blend'', ''./../ocean.Blend''] = None"
    by (simp add: broken_fault_of)
  have n: "st_size (disk broken_world) ''./../reef.blend'' = Inr 52428801"
    by (simp add: broken_disk demo_size_def)
  have o: "insertion_order [''./../scene.blend'', ''./../ocean.Blend'']
             = [''./../scene.blend'', ''./../ocean.Blend'']"
    by (rule insertion_order_distinct) simp
  note t = script_load_fault [OF fs xs n broken_disk(4)]
  show "fst (script broken_world) = Some RuntimeError" by (rule t(1))
  show "printed broken_world = []" by (simp add: printed_def t(2))
  show "results_libs (snd (script broken_world))
     = [(''./../scene.blend'', [''//props/CRATE.BLEND'', ''//ocean.Blend'']),
        (''./../ocean.Blend'', [])]"
    by (simp add: t(3) o broken_values)
  show "results_size (snd (script broken_world))
     = [(''./../ocean.Blend'', 62914560), (''./../reef.blend'', 52428801)]"
    by (simp add: t(4) o broken_values oversized_def size_limit_def)
qed

lemma unopened_find: "find_blend_files unopened_world directory = demo_files"
  using find_blend_files_disk [of unopened_world demo_world directory]
  by (simp add: find_blend_files_def unopened_world_def demo_find [unfolded find_blend_files_def])

lemma unopened_disk:
  "st_size (disk unopened_world) = demo_size"
  "blend_data (disk unopened_world) ''./../scene.blend'' = Inl RuntimeError"
  by (simp_all add: unopened_world_def demo_world_def)

lemma unopened_script:
  "fst (script unopened_world) = Some RuntimeError"
  "results_size (snd (script unopened_world)) = []"
proof -
  have fs: "find_blend_files unopened_world directory
      = [] @ ''./../scene.blend''
        # [''./../ocean.Blend'', ''./../reef.blend'', ''./../props/CRATE.BLEND'']"
    by (simp add: unopened_find demo_files_def)
  have xs: "first_fault (disk unopened_world) [] = None" by simp
  have n: "st_size (disk unopened_world) ''./../scene.blend'' = Inr 10485760"
    by (simp add: unopened_disk demo_size_def)
  have o: "insertion_order [] = []" by (simp add: insertion_order_def)
  note t = script_load_fault [OF fs xs n unopened_disk(2)]
  show "fst (script unopened_world) = Some RuntimeError" by (rule t(1))
  show "results_size (snd (script unopened_world)) = []"
    by (simp add: t(4) o size_limit_def)
qed

section \<open>Paths of distinct files are distinct\<close>

lemma plain_no_slash: "plain_name n \<Longrightarrow> c \<in> set n \<Longrightarrow> c \<noteq> CHR ''/''"
  by (auto simp: plain_name_def)

lemma join_plain: "plain_name n \<Longrightarrow> os_path_join root n = with_sep root @ n"
  by (cases n) (auto simp: plain_name_def os_path_join_def with_sep_def)

lemma with_sep_plain:
  assumes "plain_name d"
  shows "with_sep (with_sep root @ d) = with_sep root @ d @ ''/''"
proof -
  have n: "d \<noteq> []" using assms by (simp add: plain_name_def)
  then have "last d \<in> set d" by simp
  then have "last d \<noteq> CHR ''/''" using assms by (rule plain_no_slash [rotated])
  then have "last (with_sep root @ d) \<noteq> CHR ''/''" using n by simp
  moreover have "with_sep root @ d \<noteq> []" using n by simp
  ultimately show ?thesis
    unfolding with_sep_def [of "with_sep root @ d"] by simp
qed

lemma paths_rel:
  "well_named es \<Longrightarrow>
   map path_of (files_walked root es) = map (\<lambda>r. with_sep root @ r) (rel_paths es)"
  by (induction root es rule: files_walked.induct)
     (simp_all add: path_of_def join_plain with_sep_plain)

lemma first_part_plain:
  assumes "plain_name n"
  shows "first_part n = n"
  unfolding first_part_def takeWhile_eq_all_conv
  using plain_no_slash [OF assms] by blast

lemma first_part_dir:
  assumes "plain_name d"
  shows "first_part (d @ CHR ''/'' # r) = d"
proof -
  have "takeWhile (\<lambda>c. c \<noteq> CHR ''/'') (d @ CHR ''/'' # r)
          = d @ takeWhile (\<lambda>c. c \<noteq> CHR ''/'') (CHR ''/'' # r)"
    using plain_no_slash [OF assms] by (rule takeWhile_append2)
  then show ?thesis by (simp add: first_part_def)
qed

lemma first_part_rel:
  "well_named es \<Longrightarrow> r \<in> set (rel_paths es) \<Longrightarrow> first_part r \<in> set (map name_of es)"
  by (induction es arbitrary: r rule: rel_paths.induct)
     (auto simp: first_part_plain first_part_dir)

lemma distinct_rel_paths: "well_named es \<Longrightarrow> distinct (rel_paths es)"
proof (induction es rule: rel_paths.induct)
  case (2 f es)
  have w: "well_named es" and p: "plain_name f" and n: "f \<notin> set (map name_of es)"
    using "2.prems" by simp_all
  have "f \<notin> set (rel_paths es)"
  proof
    assume "f \<in> set (rel_paths es)"
    with w have "first_part f \<in> set (map name_of es)" by (rule first_part_rel)
    then show False using n by (simp add: first_part_plain [OF p])
  qed
  then show ?case using "2.IH" w by simp
next
  case (3 d sub es)
  have w: "well_named es" and ws: "well_named sub" and p: "plain_name d"
    and n: "d \<notin> set (map name_of es)"
    using "3.prems" by simp_all
  have a: "distinct (map (\<lambda>r. d @ ''/'' @ r) (rel_paths sub))"
    using "3.IH"(1) ws by (simp add: distinct_map inj_on_def)
  have b: "d @ ''/'' @ r \<notin> set (rel_paths es)" for r
  proof
    assume "d @ ''/'' @ r \<in> set (rel_paths es)"
    with w have "first_part (d @ ''/'' @ r) \<in> set (map name_of es)" by (rule first_part_rel)
    then show False using n by (simp add: first_part_dir [OF p])
  qed
  show ?case using "3.IH"(2) w a b by auto
qed simp_all

lemma distinct_find_blend_files:
  assumes "well_named (entries (tree (disk w)))"
  shows "distinct (find_blend_files w dir)"
proof -
  let ?all = "files_walked dir (entries (tree (disk w)))"
  have "distinct (map (\<lambda>r. with_sep dir @ r) (rel_paths (entries (tree (disk w)))))"
    using distinct_rel_paths [OF assms] by (simp add: distinct_map inj_on_def)
  then have "distinct (map path_of ?all)"
    by (simp add: paths_rel [OF assms])
  then have "distinct (map path_of (filter matching ?all))"
    by (rule distinct_map_filter)
  then show ?thesis
    using mset_eq_imp_distinct_iff [OF mset_find_blend_files [of w dir]] by simp
qed

lemma demo_well_named: "well_named (entries (tree (disk demo_world)))"
  by (simp add: demo_world_def demo_tree_def plain_name_def)

section \<open>Discovery, the disk and the keys of the results\<close>

lemma is_blend_more:
  "is_blend ''secret.blend''" "is_blend ''linked.blend''" "is_blend ''a.blend''"
  "is_blend ''B.BLEND''" "\<not> is_blend ''c.txt''"
  by (simp_all add: is_blend_def endswith_def lower_def lower_char_def)

lemma demo_files_under:
  "files_under directory (children (tree (disk demo_world)))
     = [(''./../'', ''scene.blend''), (''./../'', ''notes.txt''),
        (''./../props'', ''CRATE.BLEND''), (''./../props'', ''crate.png''),
        (''./../locked'', ''secret.blend''), (''./../shared'', ''linked.blend''),
        (''./../'', ''ocean.Blend''), (''./../'', ''reef.blend'')]"
  by (simp add: demo_world_def demo_tree_def os_path_join_def directory_def)

lemma files_walked_fully_listed:
  "fully_listed es \<Longrightarrow> files_walked root es = files_under root es"
  by (induction root es rule: files_walked.induct) simp_all

lemma listed_files:
  "entries (tree (disk listed_world)) = children (tree (disk listed_world))"
  "fully_listed (children (tree (disk listed_world)))"
  "files_under directory (children (tree (disk listed_world)))
     = [(''./../'', ''a.blend''), (''./../sub'', ''B.BLEND''), (''./../sub'', ''c.txt'')]"
  "find_blend_files listed_world directory = [''./../a.blend'', ''./../sub/B.BLEND'']"
  by (simp_all add: listed_world_def listed_tree_def os_path_join_def directory_def
        find_blend_files_def os_walk_def blend_files_in_def is_blend_more)

text \<open>
  C2, as the claim has it, fails: the tree holds six files whose lowered name ends with
  \<^verbatim>\<open>.blend\<close>, one of them in a directory that cannot be listed and one behind a symbolic
  link to a directory, and discovery returns the other four.
\<close>

theorem discovery_counterexample:
  "length (filter matching (files_under directory (children (tree (disk demo_world))))) = 6
   \<and> length (find_blend_files demo_world directory) = 4
   \<and> (''./../locked'', ''secret.blend'')
       \<in> set (files_under directory (children (tree (disk demo_world))))
   \<and> matching (''./../locked'', ''secret.blend'')
   \<and> path_of (''./../locked'', ''secret.blend'')
       \<notin> set (find_blend_files demo_world directory)"
  by (simp add: demo_find demo_files_def demo_files_under matching_def is_blend_demo
        is_blend_more path_of_def os_path_join_def)

text \<open>
  C2, amended. Discovery returns exactly the files whose lowered name ends with
  \<^verbatim>\<open>.blend\<close> in the directories that the walk lists: the top, and below it every
  directory that is listed and is no symbolic link; each such file once, under the path of
  the directory that holds it, so that N such files and M others there give N paths. In a
  tree whose top is listed and whose directories are all listed and no symbolic links,
  these are all the files of the tree. A directory is never returned, whatever its name.
\<close>

theorem find_blend_files_exact:
  "mset (find_blend_files w dir)
     = mset (map path_of (filter matching (files_walked dir (entries (tree (disk w))))))
   \<and> length (find_blend_files w dir)
     = length (filter matching (files_walked dir (entries (tree (disk w)))))
   \<and> length (find_blend_files w dir)
       + length (filter (\<lambda>rf. \<not> matching rf) (files_walked dir (entries (tree (disk w)))))
     = length (files_walked dir (entries (tree (disk w))))
   \<and> (entries (tree (disk w)) = children (tree (disk w)) \<longrightarrow>
        fully_listed (children (tree (disk w))) \<longrightarrow>
          mset (find_blend_files w dir)
            = mset (map path_of (filter matching
                (files_under dir (children (tree (disk w))))))
          \<and> length (find_blend_files w dir)
            = length (filter matching (files_under dir (children (tree (disk w)))))
          \<and> length (find_blend_files w dir)
              + length (filter (\<lambda>rf. \<not> matching rf)
                  (files_under dir (children (tree (disk w)))))
            = length (files_under dir (children (tree (disk w)))))"
proof -
  let ?all = "files_walked dir (entries (tree (disk w)))"
  have m: "mset (find_blend_files w dir) = mset (map path_of (filter matching ?all))"
    by (rule mset_find_blend_files)
  have l: "length (find_blend_files w dir) = length (filter matching ?all)"
    using mset_eq_length [OF m] by simp
  have c: "length (find_blend_files w dir) + length (filter (\<lambda>rf. \<not> matching rf) ?all)
             = length ?all"
    using l sum_length_filter_compl [of matching ?all] by simp
  have f: "?all = files_under dir (children (tree (disk w)))"
    if "entries (tree (disk w)) = children (tree (disk w))"
      and "fully_listed (children (tree (disk w)))"
    using that by (simp add: files_walked_fully_listed)
  show ?thesis
    using m l c f by metis
qed

theorem find_blend_files_exact_witness:
  "entries (tree (disk listed_world)) = children (tree (disk listed_world))
   \<and> fully_listed (children (tree (disk listed_world)))
   \<and> find_blend_files listed_world directory = [''./../a.blend'', ''./../sub/B.BLEND'']
   \<and> length (filter matching (files_under directory (children (tree (disk listed_world))))) = 2
   \<and> length (filter (\<lambda>rf. \<not> matching rf)
        (files_under directory (children (tree (disk listed_world))))) = 1
   \<and> ''./../d.blend'' \<notin> set (find_blend_files listed_world directory)"
proof -
  note t = find_blend_files_exact [of listed_world directory]
  note u = t [THEN conjunct2, THEN conjunct2, THEN conjunct2, rule_format,
              OF listed_files(1) listed_files(2)]
  have 1: "length (filter matching (files_under directory (children (tree (disk listed_world)))))
             = 2"
    using u [THEN conjunct2, THEN conjunct1] by (simp add: listed_files(4))
  have 2: "length (filter (\<lambda>rf. \<not> matching rf)
        (files_under directory (children (tree (disk listed_world))))) = 1"
    using u [THEN conjunct2, THEN conjunct2] by (simp add: listed_files(3,4))
  have 3: "''./../d.blend'' \<notin> set (find_blend_files listed_world directory)"
    by (simp add: listed_files(4))
  from listed_files(1,2,4) 1 2 3 show ?thesis by blast
qed

text \<open>
  C7. No run changes the disk: what the tree holds, the size of every file and the document
  in every file are after the run what they were before it. The run changes the host's
  active document, standard output and the script's own two dictionaries, and it sends the
  host no call that saves a file.
\<close>

theorem script_leaves_disk:
  "disk (snd (script w)) = disk w
   \<and> filter is_save (host_calls (snd (script w))) = filter is_save (host_calls w)
   \<and> (\<exists>doc calls out rl rs.
         snd (script w) = w\<lparr>bpy_data := doc, host_calls := calls, stdout := out,
                             results_libs := rl, results_size := rs\<rparr>)"
proof -
  have d: "disk (snd (script w)) = disk w" by (rule script_disk)
  have s: "filter is_save (host_calls (snd (script w))) = filter is_save (host_calls w)"
    by (simp add: script_after_loop(2) inspect_loop_saves)
  have "snd (script w) =
          w\<lparr>bpy_data := bpy_data (snd (script w)), host_calls := host_calls (snd (script w)),
             stdout := stdout (snd (script w)), results_libs := results_libs (snd (script w)),
             results_size := results_size (snd (script w))\<rparr>"
    using d by (cases "snd (script w)", cases w) simp
  then show ?thesis using d s by blast
qed

text \<open>
  C10. After a run that completes, the keys of \<open>results_libs\<close> are the discovered paths,
  each once, and every key of \<open>results_size\<close> is one of them.
\<close>

theorem results_keys:
  assumes "fst (script w) = None"
  shows "set (keys (results_size (snd (script w)))) \<subseteq> set (keys (results_libs (snd (script w))))
   \<and> set (keys (results_libs (snd (script w)))) = set (find_blend_files w directory)
   \<and> distinct (keys (results_libs (snd (script w))))
   \<and> distinct (keys (results_size (snd (script w))))
   \<and> length (results_libs (snd (script w))) = card (set (find_blend_files w directory))"
proof -
  let ?fs = "find_blend_files w directory"
  have kl: "keys (results_libs (snd (script w))) = insertion_order ?fs"
    by (simp add: script_complete(1) [OF assms] keys_def comp_def)
  have ks: "keys (results_size (snd (script w)))
              = filter (oversized (disk w)) (insertion_order ?fs)"
    by (simp add: script_complete(2) [OF assms] keys_def comp_def)
  have s: "set (insertion_order ?fs) = set ?fs"
    using set_foldl_insert_key [of "[]" ?fs] by (simp add: insertion_order_def)
  have d: "distinct (insertion_order ?fs)"
    using distinct_foldl_insert_key [of "[]" ?fs] by (simp add: insertion_order_def)
  have "length (results_libs (snd (script w))) = length (keys (results_libs (snd (script w))))"
    by (simp add: keys_def)
  also have "\<dots> = card (set ?fs)"
    using distinct_card [OF d] by (simp add: kl s)
  finally show ?thesis
    using d by (auto simp: kl ks s)
qed

theorem results_keys_witness:
  "fst (script demo_world) = None
   \<and> keys (results_size (snd (script demo_world))) = [''./../ocean.Blend'', ''./../reef.blend'']
   \<and> keys (results_libs (snd (script demo_world))) = find_blend_files demo_world directory
   \<and> set (keys (results_size (snd (script demo_world))))
        \<subseteq> set (keys (results_libs (snd (script demo_world))))
   \<and> length (results_libs (snd (script demo_world))) = 4"
proof -
  have c: "fst (script demo_world) = None" by (simp add: demo_script)
  show ?thesis
    using results_keys [OF c] c
    by (simp add: demo_script keys_def demo_find demo_files_def)
qed

section \<open>Rounding, lookups and lists\<close>

lemma bit_length_le: "bit_length n \<le> k \<longleftrightarrow> n < 2 ^ k"
proof (induction n arbitrary: k rule: bit_length.induct)
  case (1 n)
  show ?case
  proof (cases "n = 0")
    case True
    then show ?thesis by (simp add: bit_length.simps)
  next
    case False
    show ?thesis
    proof (cases k)
      case 0
      with False show ?thesis by (simp add: bit_length.simps)
    next
      case (Suc j)
      have "bit_length n \<le> Suc j \<longleftrightarrow> bit_length (n div 2) \<le> j"
        using False by (subst bit_length.simps) simp
      also have "\<dots> \<longleftrightarrow> n div 2 < 2 ^ j"
        using "1.IH" [OF False] .
      also have "\<dots> \<longleftrightarrow> n < 2 ^ Suc j"
        by auto
      finally show ?thesis by (simp add: Suc)
    qed
  qed
qed

lemma round53_small: "n < 2 ^ 53 \<Longrightarrow> round53 n = n"
  by (simp add: round53_def bit_length_le)

lemma round_half_even_near:
  assumes "0 < b"
  shows "2 * (round_half_even a b * b) \<le> 2 * a + b"
    and "2 * a \<le> 2 * (round_half_even a b * b) + b"
proof -
  define q r where "q = a div b" and "r = a mod b"
  have a: "a = q * b + r" by (simp add: q_def r_def)
  have r: "r < b" using assms by (simp add: r_def)
  have h: "round_half_even a b = (if 2 * r > b \<or> (2 * r = b \<and> odd q) then q + 1 else q)"
    by (simp add: round_half_even_def Let_def q_def r_def)
  show "2 * (round_half_even a b * b) \<le> 2 * a + b"
    unfolding h using r by (auto simp: a algebra_simps)
  show "2 * a \<le> 2 * (round_half_even a b * b) + b"
    unfolding h using r by (auto simp: a algebra_simps)
qed

lemma hundredths_near:
  "2 * (hundredths n * 2 ^ 20) \<le> 2 * (n * 100) + 2 ^ 20"
  "2 * (n * 100) \<le> 2 * (hundredths n * 2 ^ 20) + 2 ^ 20"
  using round_half_even_near [of "2 ^ 20" "n * 100"] by (simp_all add: hundredths_def)

lemma dict_get_map:
  "dict_get (map (\<lambda>k. (k, g k)) ks) p = (if p \<in> set ks then Some (g p) else None)"
  by (simp add: dict_get_def map_of_map_restrict restrict_map_def)

lemma set_insertion_order: "set (insertion_order ps) = set ps"
  using set_foldl_insert_key [of "[]" ps] by (simp add: insertion_order_def)

lemma distinct_insertion_order: "distinct (insertion_order ps)"
  using distinct_foldl_insert_key [of "[]" ps] by (simp add: insertion_order_def)

lemma concat_map_removeAll:
  "g p = [] \<Longrightarrow> concat (map g (removeAll p xs)) = concat (map g xs)"
  by (induction xs) auto

section \<open>Size warnings\<close>

lemma in_tail: "x \<in> set zs \<Longrightarrow> x \<in> set (h # ys @ zs)"
  by simp

text \<open>
  C1, as the claim has it, fails on the runs that a fault ends. Where the load of
  \<^verbatim>\<open>reef.blend\<close> raises, its size, one byte above the limit, is recorded and no warning
  is ever printed; where the load of the first file raises, the file of 60 MiB that is
  discovered after it gets no entry.
\<close>

theorem size_warning_counterexample:
  "''./../reef.blend'' \<in> set (find_blend_files broken_world directory)
   \<and> st_size (disk broken_world) ''./../reef.blend'' = Inr 52428801
   \<and> dict_get (results_size (snd (script broken_world))) ''./../reef.blend'' = Some 52428801
   \<and> printed broken_world = []
   \<and> ''./../ocean.Blend'' \<in> set (find_blend_files unopened_world directory)
   \<and> st_size (disk unopened_world) ''./../ocean.Blend'' = Inr 62914560
   \<and> dict_get (results_size (snd (script unopened_world))) ''./../ocean.Blend'' = None"
  by (simp add: broken_find unopened_find demo_files_def broken_disk unopened_disk
        demo_size_def broken_script unopened_script dict_get_def)

text \<open>
  C1, amended. After a run that completes, a discovered file whose size is \<open>n\<close> bytes has the entry
  \<open>n\<close> in \<open>results_size\<close> when \<open>n\<close> is more than 50 * 1024 * 1024 and no entry otherwise
  (none at exactly that size, the entry 52428801 one byte above), and the entry is printed
  as the line \<^verbatim>\<open>Warning: File <path> is <size>MB\<close>. The size printed has two decimals and,
  for a size below \<open>2 ^ 53\<close> bytes, is within half a hundredth of \<open>n / 2 ^ 20\<close>.
\<close>

theorem size_warning:
  assumes "fst (script w) = None"
    and "p \<in> set (find_blend_files w directory)"
    and "st_size (disk w) p = Inr n"
  shows "dict_get (results_size (snd (script w))) p
           = (if n > 50 * 1024 * 1024 then Some n else None)
    \<and> (n = 50 * 1024 * 1024 \<longrightarrow> p \<notin> set (keys (results_size (snd (script w)))))
    \<and> (n = 50 * 1024 * 1024 + 1 \<longrightarrow>
          dict_get (results_size (snd (script w))) p = Some (50 * 1024 * 1024 + 1))
    \<and> (n > 50 * 1024 * 1024 \<longrightarrow>
          warning_line p (format_2f (round53 n)) \<in> set (printed w))
    \<and> (n < 2 ^ 53 \<longrightarrow>
          format_2f (round53 n)
            = str_nat (hundredths n div 100) @ ''.''
              @ [digit_char (hundredths n mod 100 div 10), digit_char (hundredths n mod 10)]
          \<and> 2 * (hundredths n * 2 ^ 20) \<le> 2 * (n * 100) + 2 ^ 20
          \<and> 2 * (n * 100) \<le> 2 * (hundredths n * 2 ^ 20) + 2 ^ 20)"
proof -
  let ?order = "insertion_order (find_blend_files w directory)"
  let ?rs = "map (\<lambda>p. (p, size_of (disk w) p)) (filter (oversized (disk w)) ?order)"
  have rs: "results_size (snd (script w)) = ?rs"
    by (rule script_complete(2) [OF assms(1)])
  have n: "size_of (disk w) p = n"
    using assms(3) by (simp add: size_of_def)
  have o: "oversized (disk w) p \<longleftrightarrow> n > 50 * 1024 * 1024"
    by (simp add: oversized_def n size_limit_def)
  have m: "p \<in> set ?order"
    using assms(2) by (simp add: set_insertion_order)
  have g: "dict_get (results_size (snd (script w))) p
             = (if n > 50 * 1024 * 1024 then Some n else None)"
    unfolding rs using m o by (simp add: dict_get_map n)
  have k: "keys (results_size (snd (script w))) = filter (oversized (disk w)) ?order"
    unfolding rs by (simp add: keys_def comp_def)
  have pr: "n > 50 * 1024 * 1024 \<Longrightarrow> warning_line p (format_2f (round53 n)) \<in> set (printed w)"
  proof -
    assume "n > 50 * 1024 * 1024"
    then have "(p, n) \<in> set ?rs" using m o n by force
    then have "size_line (p, n) \<in> set (map size_line ?rs)"
      unfolding set_map by (rule imageI)
    then have "size_line (p, n) \<in> set (printed w)"
      unfolding script_complete(3) [OF assms(1)] by (rule in_tail)
    then show ?thesis
      by (simp add: size_line_def)
  qed
  have f: "n < 2 ^ 53 \<Longrightarrow> format_2f (round53 n)
            = str_nat (hundredths n div 100) @ ''.''
              @ [digit_char (hundredths n mod 100 div 10), digit_char (hundredths n mod 10)]"
    by (simp add: round53_small format_2f_def Let_def)
  show ?thesis
    using g k o pr f hundredths_near [of n] by simp
qed


theorem size_warning_witness:
  "fst (script demo_world) = None
   \<and> dict_get (results_size (snd (script demo_world))) ''./../props/CRATE.BLEND'' = None
   \<and> ''./../props/CRATE.BLEND'' \<notin> set (keys (results_size (snd (script demo_world))))
   \<and> dict_get (results_size (snd (script demo_world))) ''./../reef.blend'' = Some 52428801
   \<and> ''Warning: File ./../reef.blend is 50.00MB'' \<in> set (printed demo_world)
   \<and> hundredths 52428801 = 5000"
proof -
  have c: "fst (script demo_world) = None" by (simp add: demo_script)
  have f: "''./../props/CRATE.BLEND'' \<in> set (find_blend_files demo_world directory)"
    "''./../reef.blend'' \<in> set (find_blend_files demo_world directory)"
    by (simp_all add: demo_find demo_files_def)
  have s: "st_size (disk demo_world) ''./../props/CRATE.BLEND'' = Inr 52428800"
    "st_size (disk demo_world) ''./../reef.blend'' = Inr 52428801"
    by (simp_all add: demo_world_def demo_size_def)
  have h: "hundredths 52428801 = 5000"
    by (simp add: hundredths_def round_half_even_def Let_def)
  note at_limit = size_warning [OF c f(1) s(1)]
  note above = size_warning [OF c f(2) s(2)]
  have a: "dict_get (results_size (snd (script demo_world))) ''./../props/CRATE.BLEND'' = None"
    "''./../props/CRATE.BLEND'' \<notin> set (keys (results_size (snd (script demo_world))))"
    using at_limit [THEN conjunct1] at_limit [THEN conjunct2, THEN conjunct1] by simp_all
  have b: "dict_get (results_size (snd (script demo_world))) ''./../reef.blend'' = Some 52428801"
    "warning_line ''./../reef.blend'' (format_2f (round53 52428801)) \<in> set (printed demo_world)"
    using above [THEN conjunct1]
      above [THEN conjunct2, THEN conjunct2, THEN conjunct2, THEN conjunct1]
    by simp_all
  have l: "warning_line ''./../reef.blend'' (format_2f (round53 52428801))
             = ''Warning: File ./../reef.blend is 50.00MB''"
    by (simp add: demo_round53 demo_format warning_line_def)
  from b(2) have "''Warning: File ./../reef.blend is 50.00MB'' \<in> set (printed demo_world)"
    by (simp only: l)
  with a b(1) c h show ?thesis by blast
qed

section \<open>The report\<close>

text \<open>
  C3, as the claim has it, fails on the runs that a fault ends: where the load of a later
  file raises, \<^verbatim>\<open>scene.blend\<close> has been inspected and its two libraries recorded, and the
  report prints neither its path nor theirs.
\<close>

theorem report_order_counterexample:
  "''./../scene.blend'' \<in> set (find_blend_files broken_world directory)
   \<and> blend_data (disk broken_world) ''./../scene.blend''
       = Inr \<lparr>libraries = [\<lparr>filepath = ''//props/CRATE.BLEND''\<rparr>,
                             \<lparr>filepath = ''//ocean.Blend''\<rparr>]\<rparr>
   \<and> dict_get (results_libs (snd (script broken_world))) ''./../scene.blend''
       = Some [''//props/CRATE.BLEND'', ''//ocean.Blend'']
   \<and> fst (script broken_world) = Some RuntimeError
   \<and> printed broken_world = []"
  by (simp add: broken_find demo_files_def broken_disk demo_data_def broken_script
        dict_get_def)

text \<open>
  C3, amended. After a run that completes, the report is the line \<^verbatim>\<open>Final Results:\<close>, then for
  each key of \<open>results_libs\<close> in insertion order, when the file has K \<ge> 1 libraries, the line
  \<^verbatim>\<open>Blend File: <path>\<close> and the K file paths of its libraries, each after four spaces
  and a dash, in the order of the host's collection; then one warning line for each key of
  \<open>results_size\<close> in insertion order. The insertion order is the order of discovery: of
  first discovery should a path be discovered twice, which does not happen when the names
  in each directory are distinct.
\<close>

theorem report_order:
  assumes "fst (script w) = None"
  shows "printed w
           = ''Final Results:''
             # concat (map (\<lambda>p. lib_block (p, libs_of (disk w) p))
                 (keys (results_libs (snd (script w)))))
             @ map (\<lambda>p. size_line (p, size_of (disk w) p))
                 (keys (results_size (snd (script w))))
    \<and> keys (results_libs (snd (script w))) = insertion_order (find_blend_files w directory)
    \<and> keys (results_size (snd (script w)))
        = filter (oversized (disk w)) (insertion_order (find_blend_files w directory))
    \<and> (distinct (find_blend_files w directory) \<longrightarrow>
          insertion_order (find_blend_files w directory) = find_blend_files w directory)
    \<and> (\<forall>p doc. blend_data (disk w) p = Inr doc \<longrightarrow> libraries doc \<noteq> [] \<longrightarrow>
          lib_block (p, libs_of (disk w) p)
            = (''Blend File: '' @ p) # map (\<lambda>lib. ''    - '' @ filepath lib) (libraries doc))
    \<and> (well_named (entries (tree (disk w))) \<longrightarrow>
          keys (results_libs (snd (script w))) = find_blend_files w directory)"
proof -
  let ?order = "insertion_order (find_blend_files w directory)"
  have kl: "keys (results_libs (snd (script w))) = ?order"
    by (simp add: script_complete(1) [OF assms] keys_def comp_def)
  have ks: "keys (results_size (snd (script w))) = filter (oversized (disk w)) ?order"
    by (simp add: script_complete(2) [OF assms] keys_def comp_def)
  have pr: "printed w
           = ''Final Results:''
             # concat (map (\<lambda>p. lib_block (p, libs_of (disk w) p)) ?order)
             @ map (\<lambda>p. size_line (p, size_of (disk w) p)) (filter (oversized (disk w)) ?order)"
    by (simp add: script_complete(3) [OF assms] comp_def)
  have bl: "lib_block (p, libs_of (disk w) p)
            = (''Blend File: '' @ p) # map (\<lambda>lib. ''    - '' @ filepath lib) (libraries doc)"
    if "blend_data (disk w) p = Inr doc" and "libraries doc \<noteq> []" for p doc
    using that by (simp add: lib_block_def libs_of_def doc_of_def comp_def)
  have wn: "?order = find_blend_files w directory"
    if "well_named (entries (tree (disk w)))"
    using that by (intro insertion_order_distinct distinct_find_blend_files)
  show ?thesis
    using pr bl wn insertion_order_distinct [of "find_blend_files w directory"]
    by (simp add: kl ks)
qed

theorem report_order_witness:
  "fst (script demo_world) = None
   \<and> distinct (find_blend_files demo_world directory)
   \<and> keys (results_libs (snd (script demo_world))) = find_blend_files demo_world directory
   \<and> blend_data (disk demo_world) ''./../scene.blend''
       = Inr \<lparr>libraries = [\<lparr>filepath = ''//props/CRATE.BLEND''\<rparr>,
                             \<lparr>filepath = ''//ocean.Blend''\<rparr>]\<rparr>
   \<and> printed demo_world
       = [''Final Results:'', ''Blend File: ./../scene.blend'',
          ''    - //props/CRATE.BLEND'', ''    - //ocean.Blend'',
          ''Warning: File ./../ocean.Blend is 60.00MB'',
          ''Warning: File ./../reef.blend is 50.00MB'']
   \<and> lib_block (''./../scene.blend'', libs_of (disk demo_world) ''./../scene.blend'')
       = [''Blend File: ./../scene.blend'', ''    - //props/CRATE.BLEND'',
          ''    - //ocean.Blend'']
   \<and> well_named (entries (tree (disk demo_world)))"
proof -
  have c: "fst (script demo_world) = None" by (simp add: demo_script)
  have d: "distinct (find_blend_files demo_world directory)"
    by (simp add: demo_find demo_files_def)
  have b: "blend_data (disk demo_world) ''./../scene.blend''
       = Inr \<lparr>libraries = [\<lparr>filepath = ''//props/CRATE.BLEND''\<rparr>,
                             \<lparr>filepath = ''//ocean.Blend''\<rparr>]\<rparr>"
    by (simp add: demo_world_def demo_data_def)
  note r = report_order [OF c]
  have k: "keys (results_libs (snd (script demo_world))) = find_blend_files demo_world directory"
    using r [THEN conjunct2, THEN conjunct1]
      r [THEN conjunct2, THEN conjunct2, THEN conjunct2, THEN conjunct1] d
    by simp
  have p: "printed demo_world
       = [''Final Results:'', ''Blend File: ./../scene.blend'',
          ''    - //props/CRATE.BLEND'', ''    - //ocean.Blend'',
          ''Warning: File ./../ocean.Blend is 60.00MB'',
          ''Warning: File ./../reef.blend is 50.00MB'']"
    by (simp add: printed_def demo_script demo_initial)
  have l: "lib_block (''./../scene.blend'', libs_of (disk demo_world) ''./../scene.blend'')
       = [''Blend File: ./../scene.blend'', ''    - //props/CRATE.BLEND'',
          ''    - //ocean.Blend'']"
    using r [THEN conjunct2, THEN conjunct2, THEN conjunct2, THEN conjunct2, THEN conjunct1,
             rule_format, OF b]
    by simp
  have k': "keys (results_libs (snd (script demo_world))) = find_blend_files demo_world directory"
    using r [THEN conjunct2, THEN conjunct2, THEN conjunct2, THEN conjunct2, THEN conjunct2,
             rule_format, OF demo_well_named] .
  from c d k' b p l demo_well_named show ?thesis by blast
qed


lemma demo_blend_data:
  "blend_data (disk demo_world) ''./../scene.blend''
     = Inr \<lparr>libraries = [\<lparr>filepath = ''//props/CRATE.BLEND''\<rparr>,
                           \<lparr>filepath = ''//ocean.Blend''\<rparr>]\<rparr>"
  "blend_data (disk demo_world) ''./../ocean.Blend'' = Inr \<lparr>libraries = []\<rparr>"
  "blend_data (disk demo_world) ''./../reef.blend'' = Inr \<lparr>libraries = []\<rparr>"
  "blend_data (disk demo_world) ''./../props/CRATE.BLEND'' = Inr \<lparr>libraries = []\<rparr>"
  by (simp_all add: demo_world_def demo_data_def)

text \<open>
  C4, as the claim has it, fails: a file with no library that is larger than the limit has
  a line of the report, its size warning.
\<close>

theorem no_libraries_counterexample:
  "fst (script demo_world) = None
   \<and> ''./../ocean.Blend'' \<in> set (find_blend_files demo_world directory)
   \<and> blend_data (disk demo_world) ''./../ocean.Blend'' = Inr \<lparr>libraries = []\<rparr>
   \<and> dict_get (results_libs (snd (script demo_world))) ''./../ocean.Blend'' = Some []
   \<and> ''Warning: File ./../ocean.Blend is 60.00MB'' \<in> set (printed demo_world)"
  by (simp add: demo_script demo_find demo_files_def printed_def demo_initial dict_get_def
        demo_blend_data)

text \<open>
  C4, amended. After a run that completes, a discovered file with no library has the empty
  list under its path in \<open>results_libs\<close>, and the part of the report that lists libraries
  has no line for it: the report is the one that the other keys give. When the file is not
  above the size limit the whole report has no line for it; when it is, the report has its
  size warning.
\<close>

theorem no_libraries:
  assumes "fst (script w) = None"
    and "p \<in> set (find_blend_files w directory)"
    and "blend_data (disk w) p = Inr doc"
    and "libraries doc = []"
  shows "dict_get (results_libs (snd (script w))) p = Some []
    \<and> printed w
        = ''Final Results:''
          # concat (map (\<lambda>q. lib_block (q, libs_of (disk w) q))
              (removeAll p (keys (results_libs (snd (script w))))))
          @ map (\<lambda>q. size_line (q, size_of (disk w) q)) (keys (results_size (snd (script w))))
    \<and> (\<not> oversized (disk w) p \<longrightarrow>
          printed w
            = ''Final Results:''
              # concat (map (\<lambda>q. lib_block (q, libs_of (disk w) q))
                  (removeAll p (keys (results_libs (snd (script w))))))
              @ map (\<lambda>q. size_line (q, size_of (disk w) q))
                  (removeAll p (keys (results_size (snd (script w))))))
    \<and> (oversized (disk w) p \<longrightarrow>
          warning_line p (format_2f (round53 (size_of (disk w) p))) \<in> set (printed w))"
proof -
  let ?order = "insertion_order (find_blend_files w directory)"
  let ?block = "\<lambda>q. lib_block (q, libs_of (disk w) q)"
  let ?line = "\<lambda>q. size_line (q, size_of (disk w) q)"
  have l: "libs_of (disk w) p = []"
    using assms(3,4) by (simp add: libs_of_def doc_of_def)
  have m: "p \<in> set ?order"
    using assms(2) by (simp add: set_insertion_order)
  have kl: "keys (results_libs (snd (script w))) = ?order"
    by (simp add: script_complete(1) [OF assms(1)] keys_def comp_def)
  have ks: "keys (results_size (snd (script w))) = filter (oversized (disk w)) ?order"
    by (simp add: script_complete(2) [OF assms(1)] keys_def comp_def)
  have g: "dict_get (results_libs (snd (script w))) p = Some []"
    using m by (simp add: script_complete(1) [OF assms(1)] dict_get_map l)
  have b: "?block p = []"
    by (simp add: lib_block_def l)
  have pr: "printed w = ''Final Results:'' # concat (map ?block ?order)
              @ map ?line (filter (oversized (disk w)) ?order)"
    by (simp add: script_complete(3) [OF assms(1)] comp_def)
  have p1: "printed w = ''Final Results:'' # concat (map ?block (removeAll p ?order))
              @ map ?line (filter (oversized (disk w)) ?order)"
    using pr concat_map_removeAll [of ?block p ?order, OF b] by simp
  have p2: "printed w = ''Final Results:'' # concat (map ?block (removeAll p ?order))
              @ map ?line (removeAll p (filter (oversized (disk w)) ?order))"
    if "\<not> oversized (disk w) p"
  proof -
    have "p \<notin> set (filter (oversized (disk w)) ?order)" using that by simp
    then have "removeAll p (filter (oversized (disk w)) ?order) = filter (oversized (disk w)) ?order"
      by (rule removeAll_id)
    with p1 show ?thesis by simp
  qed
  have p3: "warning_line p (format_2f (round53 (size_of (disk w) p))) \<in> set (printed w)"
    if "oversized (disk w) p"
  proof -
    have "p \<in> set (filter (oversized (disk w)) ?order)" using that m by simp
    then have "?line p \<in> set (map ?line (filter (oversized (disk w)) ?order))"
      unfolding set_map by (rule imageI)
    then have "?line p \<in> set (printed w)"
      unfolding pr by (rule in_tail)
    then show ?thesis by (simp add: size_line_def)
  qed
  show ?thesis
    using g p1 p2 p3 by (simp add: kl ks)
qed

theorem no_libraries_witness:
  "fst (script demo_world) = None
   \<and> dict_get (results_libs (snd (script demo_world))) ''./../props/CRATE.BLEND'' = Some []
   \<and> \<not> oversized (disk demo_world) ''./../props/CRATE.BLEND''
   \<and> printed demo_world
       = ''Final Results:''
         # concat (map (\<lambda>q. lib_block (q, libs_of (disk demo_world) q))
             [''./../scene.blend'', ''./../ocean.Blend'', ''./../reef.blend''])
         @ map (\<lambda>q. size_line (q, size_of (disk demo_world) q))
             [''./../ocean.Blend'', ''./../reef.blend'']
   \<and> oversized (disk demo_world) ''./../ocean.Blend''
   \<and> warning_line ''./../ocean.Blend'' (format_2f (round53 62914560))
       \<in> set (printed demo_world)"
proof -
  have c: "fst (script demo_world) = None" by (simp add: demo_script)
  have f: "''./../props/CRATE.BLEND'' \<in> set (find_blend_files demo_world directory)"
    "''./../ocean.Blend'' \<in> set (find_blend_files demo_world directory)"
    by (simp_all add: demo_find demo_files_def)
  have b: "blend_data (disk demo_world) ''./../props/CRATE.BLEND'' = Inr \<lparr>libraries = []\<rparr>"
    "blend_data (disk demo_world) ''./../ocean.Blend'' = Inr \<lparr>libraries = []\<rparr>"
    by (simp_all add: demo_world_def demo_data_def)
  have e: "libraries \<lparr>libraries = []\<rparr> = []" by simp
  note small = no_libraries [OF c f(1) b(1) e]
  note big = no_libraries [OF c f(2) b(2) e]
  have k: "keys (results_libs (snd (script demo_world)))
             = [''./../scene.blend'', ''./../ocean.Blend'', ''./../reef.blend'',
                ''./../props/CRATE.BLEND'']"
    "keys (results_size (snd (script demo_world))) = [''./../ocean.Blend'', ''./../reef.blend'']"
    by (simp_all add: demo_script keys_def)
  have 1: "dict_get (results_libs (snd (script demo_world))) ''./../props/CRATE.BLEND'' = Some []"
    using small [THEN conjunct1] .
  have 2: "printed demo_world
       = ''Final Results:''
         # concat (map (\<lambda>q. lib_block (q, libs_of (disk demo_world) q))
             [''./../scene.blend'', ''./../ocean.Blend'', ''./../reef.blend''])
         @ map (\<lambda>q. size_line (q, size_of (disk demo_world) q))
             [''./../ocean.Blend'', ''./../reef.blend'']"
    using small [THEN conjunct2, THEN conjunct2, THEN conjunct1] demo_oversized(4)
    by (simp add: k)
  have 3: "warning_line ''./../ocean.Blend'' (format_2f (round53 62914560))
       \<in> set (printed demo_world)"
    using big [THEN conjunct2, THEN conjunct2, THEN conjunct2] demo_oversized(2)
    by (simp add: demo_size_of)
  from c 1 2 3 demo_oversized(2,4) show ?thesis by blast
qed

section \<open>Error handling\<close>

lemma fault_of_Inl:
  "st_size d p = Inl e \<or> blend_data d p = Inl e \<Longrightarrow> fault_of d p \<noteq> None"
  by (auto simp: fault_of_def split: sum.splits)

lemma script_fst_None:
  "fst (script w) = None \<longleftrightarrow>
     (\<forall>p \<in> set (find_blend_files w directory). fault_of (disk w) p = None)
     \<and> (\<forall>p \<in> set (find_blend_files w directory).
           oversized (disk w) p \<longrightarrow> \<not> overflows (size_of (disk w) p))"
proof (cases "first_fault (disk w) (find_blend_files w directory)")
  case None
  show ?thesis
    unfolding script_no_fault [OF None]
    using None by (auto simp: first_fault_None set_insertion_order)
next
  case (Some e)
  then have "\<not> (\<forall>p \<in> set (find_blend_files w directory). fault_of (disk w) p = None)"
    using first_fault_None [of "disk w" "find_blend_files w directory"] by simp
  then show ?thesis
    by (simp add: script_fault(1) [OF Some])
qed

text \<open>
  C5, as the claim has it, fails: a directory whose listing raises does not end the run.
  \<^verbatim>\<open>os.walk\<close> is called without \<^verbatim>\<open>onerror\<close>, ignores the error and goes on.
\<close>

theorem faults_counterexample:
  "has_unreadable (entries (tree (disk demo_world)))
   \<and> fst (script demo_world) = None
   \<and> printed demo_world
       = [''Final Results:'', ''Blend File: ./../scene.blend'',
          ''    - //props/CRATE.BLEND'', ''    - //ocean.Blend'',
          ''Warning: File ./../ocean.Blend is 60.00MB'',
          ''Warning: File ./../reef.blend is 50.00MB'']"
proof -
  have "has_unreadable (entries (tree (disk demo_world)))"
    by (simp add: demo_world_def demo_tree_def)
  then show ?thesis
    by (simp add: printed_def demo_script demo_initial)
qed

text \<open>
  C5, amended. The script handles no error. When \<^verbatim>\<open>os.path.getsize\<close> or the load raises
  for a discovered file, the run ends there with that fault, the one of the first such
  file, and prints nothing. The traversal raises nothing: the run completes exactly when
  the size and the load of every discovered file succeed (and the size of every warning
  fits a float). An inspection whose size and load succeed does not fault whatever the
  comparison with the limit gives, and stores the file paths of the libraries whether
  there are any or not.
\<close>

theorem faults_abort:
  "(\<forall>p \<in> set (find_blend_files w directory). \<forall>e.
      st_size (disk w) p = Inl e \<or> blend_data (disk w) p = Inl e \<longrightarrow>
      fst (script w) \<noteq> None \<and> printed w = []
      \<and> fst (script w) = first_fault (disk w) (find_blend_files w directory))
   \<and> (fst (script w) = None \<longleftrightarrow>
        (\<forall>p \<in> set (find_blend_files w directory). fault_of (disk w) p = None)
        \<and> (\<forall>p \<in> set (find_blend_files w directory).
              oversized (disk w) p \<longrightarrow> \<not> overflows (size_of (disk w) p)))
   \<and> (\<forall>p v. fault_of (disk v) p = None \<longrightarrow>
         fst (inspect p v) = None
         \<and> results_libs (snd (inspect p v))
             = dict_set (results_libs v) p (libs_of (disk v) p))"
proof -
  have a: "fst (script w) \<noteq> None \<and> printed w = []
      \<and> fst (script w) = first_fault (disk w) (find_blend_files w directory)"
    if "p \<in> set (find_blend_files w directory)"
      and "st_size (disk w) p = Inl e \<or> blend_data (disk w) p = Inl e" for p e
  proof -
    have "fault_of (disk w) p \<noteq> None" using that(2) by (rule fault_of_Inl)
    with that(1) have "first_fault (disk w) (find_blend_files w directory) \<noteq> None"
      by (auto simp: first_fault_None)
    then obtain e' where f: "first_fault (disk w) (find_blend_files w directory) = Some e'"
      by blast
    show ?thesis
      by (simp add: script_fault(1) [OF f] printed_fault [OF f] f)
  qed
  have c: "fst (inspect p v) = None
         \<and> results_libs (snd (inspect p v)) = dict_set (results_libs v) p (libs_of (disk v) p)"
    if "fault_of (disk v) p = None" for p v
    by (simp add: inspect_ok [OF refl that])
  show ?thesis
    using a script_fst_None [of w] c by blast
qed

theorem faults_abort_witness:
  "''./../reef.blend'' \<in> set (find_blend_files broken_world directory)
   \<and> blend_data (disk broken_world) ''./../reef.blend'' = Inl RuntimeError
   \<and> fst (script broken_world) = Some RuntimeError
   \<and> printed broken_world = []
   \<and> fault_of (disk broken_world) ''./../ocean.Blend'' = None
   \<and> fst (inspect ''./../ocean.Blend'' broken_world) = None"
proof -
  have m: "''./../reef.blend'' \<in> set (find_blend_files broken_world directory)"
    by (simp add: broken_find demo_files_def)
  note t = faults_abort [of broken_world]
  have 1: "fst (script broken_world) \<noteq> None \<and> printed broken_world = []
      \<and> fst (script broken_world)
          = first_fault (disk broken_world) (find_blend_files broken_world directory)"
    using t [THEN conjunct1, rule_format, OF m, of RuntimeError] broken_disk(4) by blast
  have 2: "fst (inspect ''./../ocean.Blend'' broken_world) = None"
    using t [THEN conjunct2, THEN conjunct2, rule_format, OF broken_fault_of(2)] by simp
  from m 1 2 broken_disk(4) broken_fault_of(2) broken_first_fault show ?thesis by simp
qed

text \<open>
  C9. When the load of a discovered file raises, the run faults and prints nothing. Where
  the file is the first that fails, the results of the files before it are in
  \<open>results_libs\<close>, and the size of the failing file itself, if above the limit, is in
  \<open>results_size\<close>; none of this reaches the output.
\<close>

theorem load_fault_prints_nothing:
  assumes "p \<in> set (find_blend_files w directory)"
    and "blend_data (disk w) p = Inl e"
  shows "fst (script w) \<noteq> None \<and> printed w = [] \<and> stdout (snd (script w)) = stdout w
    \<and> (\<forall>xs ys n. find_blend_files w directory = xs @ p # ys \<longrightarrow>
          first_fault (disk w) xs = None \<longrightarrow> st_size (disk w) p = Inr n \<longrightarrow>
          fst (script w) = Some e
          \<and> results_libs (snd (script w))
              = map (\<lambda>q. (q, libs_of (disk w) q)) (insertion_order xs)
          \<and> (n > 50 * 1024 * 1024 \<longrightarrow>
                dict_get (results_size (snd (script w))) p = Some n))"
proof -
  have "fault_of (disk w) p \<noteq> None"
    using fault_of_Inl [of "disk w" p e] assms(2) by blast
  with assms(1) have "first_fault (disk w) (find_blend_files w directory) \<noteq> None"
    by (auto simp: first_fault_None)
  then obtain e' where f: "first_fault (disk w) (find_blend_files w directory) = Some e'"
    by blast
  have a: "fst (script w) \<noteq> None \<and> printed w = [] \<and> stdout (snd (script w)) = stdout w"
    by (simp add: script_fault(1,2) [OF f] printed_fault [OF f])
  have b: "fst (script w) = Some e
          \<and> results_libs (snd (script w))
              = map (\<lambda>q. (q, libs_of (disk w) q)) (insertion_order xs)
          \<and> (n > 50 * 1024 * 1024 \<longrightarrow>
                dict_get (results_size (snd (script w))) p = Some n)"
    if fs: "find_blend_files w directory = xs @ p # ys"
      and xs: "first_fault (disk w) xs = None"
      and n: "st_size (disk w) p = Inr n" for xs ys n
  proof -
    let ?w = "w\<lparr>results_libs := [], results_size := []\<rparr>"
    have d: "disk ?w = disk w" by simp
    obtain wx where wx: "inspect_loop xs ?w = (None, wx)"
      and dx: "disk wx = disk w"
      and lx: "results_libs wx = foldl (\<lambda>r q. dict_set r q (libs_of (disk w) q)) [] xs"
      using inspect_loop_ok [OF d xs] by simp
    let ?wp = "wx\<lparr>host_calls := host_calls wx @ [Open_mainfile p],
               results_size := (if n > size_limit then dict_set (results_size wx) p n
                                else results_size wx)\<rparr>"
    have ip: "inspect p wx = (Some e, ?wp)"
      using dx n assms(2) by (rule inspect_load_fault)
    have "inspect_loop (xs @ p # ys) ?w = (Some e, ?wp)"
      by (simp add: inspect_loop_append wx ip)
    then have s: "script w = (Some e, ?wp)"
      by (simp add: script_def fs)
    have l: "results_libs ?wp = map (\<lambda>q. (q, libs_of (disk w) q)) (insertion_order xs)"
      using foldl_dict_set [of "libs_of (disk w)" "[]" xs]
      by (simp add: lx insertion_order_def)
    show ?thesis
      unfolding s using l by (simp add: dict_get_dict_set size_limit_def)
  qed
  show ?thesis
    using a b by blast
qed

theorem load_fault_prints_nothing_witness:
  "''./../reef.blend'' \<in> set (find_blend_files broken_world directory)
   \<and> blend_data (disk broken_world) ''./../reef.blend'' = Inl RuntimeError
   \<and> fst (script broken_world) = Some RuntimeError
   \<and> printed broken_world = []
   \<and> keys (results_libs (snd (script broken_world))) = [''./../scene.blend'', ''./../ocean.Blend'']
   \<and> dict_get (results_size (snd (script broken_world))) ''./../reef.blend'' = Some 52428801"
proof -
  have m: "''./../reef.blend'' \<in> set (find_blend_files broken_world directory)"
    by (simp add: broken_find demo_files_def)
  note t = load_fault_prints_nothing [OF m broken_disk(4)]
  have fs: "find_blend_files broken_world directory
      = [''./../scene.blend'', ''./../ocean.Blend''] @ ''./../reef.blend''
        # [''./../props/CRATE.BLEND'']"
    by (simp add: broken_find demo_files_def)
  have xs: "first_fault (disk broken_world) [''./../scene.blend'', ''./../ocean.Blend''] = None"
    by (simp add: broken_fault_of)
  have n: "st_size (disk broken_world) ''./../reef.blend'' = Inr 52428801"
    by (simp add: broken_disk demo_size_def)
  note u = t [THEN conjunct2, THEN conjunct2, THEN conjunct2, rule_format, OF fs xs n]
  have o: "insertion_order [''./../scene.blend'', ''./../ocean.Blend'']
             = [''./../scene.blend'', ''./../ocean.Blend'']"
    by (rule insertion_order_distinct) simp
  have 1: "printed broken_world = []"
    using t [THEN conjunct2, THEN conjunct1] .
  have 2: "fst (script broken_world) = Some RuntimeError"
    using u [THEN conjunct1] .
  have 3: "keys (results_libs (snd (script broken_world)))
             = [''./../scene.blend'', ''./../ocean.Blend'']"
    using u [THEN conjunct2, THEN conjunct1] by (simp add: keys_def o)
  have 4: "dict_get (results_size (snd (script broken_world))) ''./../reef.blend''
             = Some 52428801"
    using u [THEN conjunct2, THEN conjunct2] by simp
  from m broken_disk(4) 1 2 3 4 show ?thesis by blast
qed

section \<open>Reruns and the host\<close>

text \<open>
  C6. A run leaves the disk as it was, and the fault and the report of a run are those of
  any other run on the same disk, whatever the host had open, whatever was printed before
  and whatever the dictionaries held: the second of two runs prints what the first did.
\<close>

theorem rerun_same_report:
  "disk (snd (script w)) = disk w
   \<and> fst (script (snd (script w))) = fst (script w)
   \<and> printed (snd (script w)) = printed w
   \<and> (\<forall>w'. disk w' = disk w \<longrightarrow> fst (script w') = fst (script w) \<and> printed w' = printed w)"
proof -
  have d: "disk (snd (script w)) = disk w" by (rule script_disk)
  show ?thesis
    using d script_depends_on_disk [OF d] script_depends_on_disk [of _ w] by blast
qed

theorem rerun_same_report_witness:
  "disk (snd (script demo_world)) = disk demo_world
   \<and> bpy_data (snd (script demo_world)) = \<lparr>libraries = []\<rparr>
   \<and> stdout (snd (script demo_world)) \<noteq> stdout demo_world
   \<and> fst (script (snd (script demo_world))) = None
   \<and> printed (snd (script demo_world))
       = [''Final Results:'', ''Blend File: ./../scene.blend'',
          ''    - //props/CRATE.BLEND'', ''    - //ocean.Blend'',
          ''Warning: File ./../ocean.Blend is 60.00MB'',
          ''Warning: File ./../reef.blend is 50.00MB'']"
proof -
  note t = rerun_same_report [of demo_world]
  have d: "disk (snd (script demo_world)) = disk demo_world"
    using t [THEN conjunct1] .
  note u = t [THEN conjunct2, THEN conjunct2, THEN conjunct2, rule_format, OF d]
  have p: "printed demo_world
       = [''Final Results:'', ''Blend File: ./../scene.blend'',
          ''    - //props/CRATE.BLEND'', ''    - //ocean.Blend'',
          ''Warning: File ./../ocean.Blend is 60.00MB'',
          ''Warning: File ./../reef.blend is 50.00MB'']"
    by (simp add: printed_def demo_script demo_initial)
  have c: "fst (script demo_world) = None" by (simp add: demo_script)
  have b: "bpy_data (snd (script demo_world)) = \<lparr>libraries = []\<rparr>"
    "stdout (snd (script demo_world)) \<noteq> stdout demo_world"
    by (simp_all add: demo_script demo_initial)
  from d b u p c show ?thesis by simp
qed



end
